theory Spec2Isabelle
  imports Main "HOL-Library.Word" "HOL-Library.DAList"
begin

section \<open>Values, pointers and the store\<close>

text \<open>
  Package \<^verbatim>\<open>apperror\<close> hands out \<^verbatim>\<open>*AppError\<close> pointers and Go maps, both
  references into the heap. The store below holds the allocated structs and the
  allocated map tables; an address is an index, and allocation appends. A nil pointer
  and a nil map are \<open>None\<close>.
\<close>

type_synonym addr = nat

text \<open>
  A value of the interface type \<^verbatim>\<open>error\<close>: the nil interface, a \<^verbatim>\<open>*AppError\<close>
  (the pointer inside may itself be nil), or an error of another type, given by the text
  its \<^verbatim>\<open>Error\<close> method returns and by the error its \<^verbatim>\<open>Unwrap\<close> method returns
  (\<open>NilError\<close> when it wraps nothing).
\<close>

datatype error = NilError | AppErrorPtr "addr option" | Foreign string error

text \<open>\<^verbatim>\<open>type ErrorFields map[string]string\<close>: a reference to a table, or nil.\<close>

type_synonym ErrorFields = "addr option"

text \<open>\<^verbatim>\<open>type AppError struct\<close> (error.go, lines 128-136).\<close>

record AppError =
  Service :: string
  Code :: string
  Message :: string
  Fields :: ErrorFields
  cause :: error
  grpcCode :: "32 word"
  traceID :: string

text \<open>
  The table of a map holds its entries with pairwise distinct keys
  (\<^typ>\<open>(string, string) alist\<close>).
\<close>

record heap =
  structs :: "AppError list"
  tables :: "(string, string) alist list"

text \<open>A call either returns or panics (a nil dereference aborts the goroutine).\<close>

datatype 'a result = Panics | Returns 'a

definition empty_heap :: heap where
  "empty_heap = \<lparr>structs = [], tables = []\<rparr>"

text \<open>The zero value of the struct: what a composite literal leaves unset.\<close>

definition zero_AppError :: AppError where
  "zero_AppError =
     \<lparr>Service = [], Code = [], Message = [], Fields = None, cause = NilError,
      grpcCode = 0, traceID = []\<rparr>"

text \<open>
  \<^verbatim>\<open>*p\<close>: reading through a nil pointer panics. An address outside the store
  denotes no object (Go has no such pointer); the model gives it no value either.
\<close>

definition deref :: "heap \<Rightarrow> addr option \<Rightarrow> AppError result" where
  "deref h p =
     (case p of
        None \<Rightarrow> Panics
      | Some a \<Rightarrow> if a < length (structs h) then Returns (structs h ! a) else Panics)"

text \<open>\<^verbatim>\<open>&v\<close> for a local \<^verbatim>\<open>v\<close> that escapes: a new struct in the store.\<close>

definition new_struct :: "heap \<Rightarrow> AppError \<Rightarrow> addr option \<times> heap" where
  "new_struct h v = (Some (length (structs h)), h\<lparr>structs := structs h @ [v]\<rparr>)"

text \<open>
  The table behind a map value. Reading a nil map is reading an empty map
  (\<^verbatim>\<open>len\<close>, \<^verbatim>\<open>range\<close> and indexing all accept nil). An address outside
  the store denotes no table (Go has no such map value); the model reads it as empty.
\<close>

definition table :: "heap \<Rightarrow> ErrorFields \<Rightarrow> (string, string) alist" where
  "table h m =
     (case m of
        None \<Rightarrow> DAList.empty
      | Some a \<Rightarrow> if a < length (tables h) then tables h ! a else DAList.empty)"

text \<open>\<^verbatim>\<open>len(m)\<close>.\<close>

definition len :: "heap \<Rightarrow> ErrorFields \<Rightarrow> nat" where
  "len h m = length (DAList.impl_of (table h m))"

text \<open>
  \<^verbatim>\<open>for k, v := range m\<close> visits every entry once, in an order Go leaves
  unspecified; the model visits them in the order of the table.
\<close>

definition range_of :: "heap \<Rightarrow> ErrorFields \<Rightarrow> (string \<times> string) list" where
  "range_of h m = DAList.impl_of (table h m)"

text \<open>\<^verbatim>\<open>v, ok := m[k]\<close>.\<close>

definition mapaccess :: "heap \<Rightarrow> ErrorFields \<Rightarrow> string \<Rightarrow> string option" where
  "mapaccess h m k = DAList.lookup (table h m) k"

text \<open>\<^verbatim>\<open>make(ErrorFields, n)\<close>: a new, empty table.\<close>

definition make_map :: "heap \<Rightarrow> addr \<times> heap" where
  "make_map h = (length (tables h), h\<lparr>tables := tables h @ [DAList.empty]\<rparr>)"

text \<open>
  \<^verbatim>\<open>m[k] = v\<close> on the table at address \<open>a\<close>. The package assigns only
  into a table it has just made, never into a nil map.
\<close>

definition mapassign :: "heap \<Rightarrow> addr \<Rightarrow> string \<Rightarrow> string \<Rightarrow> heap" where
  "mapassign h a k v = h\<lparr>tables := (tables h)[a := DAList.update k v (tables h ! a)]\<rparr>"

text \<open>
  \<^verbatim>\<open>for k, v := range src { dst[k] = v }\<close>, the entries of \<open>src\<close> already
  read out.
\<close>

fun assign_all :: "heap \<Rightarrow> addr \<Rightarrow> (string \<times> string) list \<Rightarrow> heap" where
  "assign_all h a [] = h"
| "assign_all h a ((k, v) # rest) = assign_all (mapassign h a k v) a rest"

section \<open>error.go: construction and enrichment\<close>

text \<open>\<^verbatim>\<open>func New(service string, code string, message string) *AppError\<close>.\<close>

definition New :: "heap \<Rightarrow> string \<Rightarrow> string \<Rightarrow> string \<Rightarrow> addr option \<times> heap" where
  "New h service code message =
     new_struct h (zero_AppError\<lparr>Service := service, Code := code, Message := message\<rparr>)"

text \<open>
  \<^verbatim>\<open>func Wrap(err error, appErr *AppError) *AppError\<close>: nil for a nil \<^verbatim>\<open>err\<close>,
  before \<^verbatim>\<open>appErr\<close> is looked at; otherwise a copy of \<^verbatim>\<open>*appErr\<close> with the cause
  set.
\<close>

definition Wrap :: "heap \<Rightarrow> error \<Rightarrow> addr option \<Rightarrow> (addr option \<times> heap) result" where
  "Wrap h err appErr =
     (if err = NilError then Returns (None, h)
      else case deref h appErr of
             Panics \<Rightarrow> Panics
           | Returns copyErr \<Rightarrow> Returns (new_struct h (copyErr\<lparr>cause := err\<rparr>)))"

text \<open>
  \<^verbatim>\<open>func (e *AppError) AddFields(fields ErrorFields) *AppError\<close>: the receiver
  itself when \<^verbatim>\<open>fields\<close> is empty; otherwise a copy of \<^verbatim>\<open>*e\<close> whose map is a new
  table, filled from \<^verbatim>\<open>e.Fields\<close> and then from \<^verbatim>\<open>fields\<close>.
\<close>

definition AddFields :: "heap \<Rightarrow> addr option \<Rightarrow> ErrorFields \<Rightarrow> (addr option \<times> heap) result" where
  "AddFields h e fields' =
     (if len h fields' = 0 then Returns (e, h)
      else case deref h e of
             Panics \<Rightarrow> Panics
           | Returns copyErr \<Rightarrow>
               (let (newFields, h1) = make_map h;
                    h2 = assign_all h1 newFields (range_of h1 (Fields copyErr));
                    h3 = assign_all h2 newFields (range_of h2 fields')
                in Returns (new_struct h3 (copyErr\<lparr>Fields := Some newFields\<rparr>))))"

text \<open>
  \<^verbatim>\<open>func (e *AppError) WithField(key, value string) *AppError\<close>:
  \<^verbatim>\<open>e.AddFields(ErrorFields{key: value})\<close>; the literal is a new one-entry table.
\<close>

definition WithField :: "heap \<Rightarrow> addr option \<Rightarrow> string \<Rightarrow> string \<Rightarrow> (addr option \<times> heap) result" where
  "WithField h e key val =
     (let (lit, h1) = make_map h;
          h2 = mapassign h1 lit key val
      in AddFields h2 e (Some lit))"

text \<open>\<^verbatim>\<open>func (e *AppError) WithFields(fields ErrorFields) *AppError\<close>.\<close>

definition WithFields :: "heap \<Rightarrow> addr option \<Rightarrow> ErrorFields \<Rightarrow> (addr option \<times> heap) result" where
  "WithFields h e fields' =
     (case deref h e of
        Panics \<Rightarrow> Panics
      | Returns copyErr \<Rightarrow> Returns (new_struct h (copyErr\<lparr>Fields := fields'\<rparr>)))"

text \<open>\<^verbatim>\<open>func (e *AppError) Unwrap() error\<close>.\<close>

definition Unwrap :: "heap \<Rightarrow> addr option \<Rightarrow> error result" where
  "Unwrap h e = (case deref h e of Panics \<Rightarrow> Panics | Returns v \<Rightarrow> Returns (cause v))"

text \<open>
  The loop of \<^verbatim>\<open>Is\<close> over the target's entries: false at the first entry the
  receiver's map lacks or holds with another value.
\<close>

fun fields_match :: "heap \<Rightarrow> ErrorFields \<Rightarrow> (string \<times> string) list \<Rightarrow> bool" where
  "fields_match h m [] = True"
| "fields_match h m ((key, val) # rest) =
     (case mapaccess h m key of
        None \<Rightarrow> False
      | Some v \<Rightarrow> if v \<noteq> val then False else fields_match h m rest)"

text \<open>
  \<^verbatim>\<open>func (e *AppError) Is(target error) bool\<close>: the receiver is the error at
  hand, the argument the one it is compared with.
\<close>

definition Is :: "heap \<Rightarrow> addr option \<Rightarrow> error \<Rightarrow> bool result" where
  "Is h e target =
     (case target of
        AppErrorPtr t \<Rightarrow>
          (case deref h e of
             Panics \<Rightarrow> Panics
           | Returns ev \<Rightarrow>
               (case deref h t of
                  Panics \<Rightarrow> Panics
                | Returns tv \<Rightarrow>
                    if Service ev \<noteq> Service tv \<or> Code ev \<noteq> Code tv then Returns False
                    else Returns (fields_match h (Fields ev) (range_of h (Fields tv)))))
      | _ \<Rightarrow> Returns False)"

section \<open>error.go: rendering\<close>

text \<open>
  \<^verbatim>\<open>%q\<close> of \<^verbatim>\<open>fmt\<close> is \<^verbatim>\<open>strconv.Quote\<close> of the Go library, modelled
  here rune by rune as the library does it. \<^verbatim>\<open>lowerhex\<close> is its table of
  hexadecimal digits.
\<close>

definition lowerhex :: "nat \<Rightarrow> char" where
  "lowerhex n = ''0123456789abcdef'' ! (n mod 16)"

text \<open>\<^verbatim>\<open>utf8.RuneError\<close>, U+FFFD.\<close>

definition RuneError :: nat where
  "RuneError = 0xFFFD"

text \<open>
  \<^verbatim>\<open>utf8.DecodeRuneInString\<close>: the first rune of a string and its width in bytes;
  \<^verbatim>\<open>(RuneError, 1)\<close> when the string does not start with a well-formed UTF-8
  sequence (a stray or missing continuation byte, an overlong form, a surrogate, a value
  above U+10FFFF).
\<close>

definition DecodeRuneInString :: "string \<Rightarrow> nat \<times> nat" where
  "DecodeRuneInString str =
     (case str of
        [] \<Rightarrow> (RuneError, 0)
      | c0 # s \<Rightarrow>
          (let s0 = (of_char c0 :: nat) in
           if s0 < 0x80 then (s0, 1)
           else if s0 < 0xC2 \<or> 0xF4 < s0 then (RuneError, 1)
           else
             (let sz = (if s0 < 0xE0 then 2 else if s0 < 0xF0 then 3 else 4 :: nat);
                  lo = (if s0 = 0xE0 then 0xA0 else if s0 = 0xF0 then 0x90 else 0x80 :: nat);
                  hi = (if s0 = 0xED then 0x9F else if s0 = 0xF4 then 0x8F else 0xBF :: nat)
              in if Suc (length s) < sz then (RuneError, 1)
                 else
                   (let s1 = (of_char (s ! 0) :: nat) in
                    if s1 < lo \<or> hi < s1 then (RuneError, 1)
                    else if sz \<le> 2 then ((s0 mod 32) * 64 + s1 mod 64, 2)
                    else
                      (let s2 = (of_char (s ! 1) :: nat) in
                       if s2 < 0x80 \<or> 0xBF < s2 then (RuneError, 1)
                       else if sz \<le> 3
                       then ((s0 mod 16) * 4096 + (s1 mod 64) * 64 + s2 mod 64, 3)
                       else
                         (let s3 = (of_char (s ! 2) :: nat) in
                          if s3 < 0x80 \<or> 0xBF < s3 then (RuneError, 1)
                          else ((s0 mod 8) * 262144 + (s1 mod 64) * 4096 + (s2 mod 64) * 64
                                  + s3 mod 64, 4)))))))"

text \<open>
  \<^verbatim>\<open>strconv.IsPrint\<close>: for ASCII the characters from the space to the tilde; from
  0x80 on the library decides by its Unicode tables, which are the parameter
  \<open>IsPrint\<close> of the model.
\<close>

definition is_print :: "(nat \<Rightarrow> bool) \<Rightarrow> nat \<Rightarrow> bool" where
  "is_print IsPrint r = (if r < 0x80 then 0x20 \<le> r \<and> r < 0x7F else IsPrint r)"

text \<open>
  \<^verbatim>\<open>appendEscapedRune\<close> for a rune \<open>r\<close> whose UTF-8 encoding is \<open>enc\<close>: the
  double quote and the backslash get a backslash, a printable rune is copied, and any
  other rune becomes its Go escape (\<^verbatim>\<open>\a \b \f \n \r \t \v\<close>, \<^verbatim>\<open>\x\<close> and two
  digits below the space and for DEL, \<^verbatim>\<open>\u\<close> and four digits below U+10000,
  \<^verbatim>\<open>\U\<close> and eight digits from there on). The rune comes from
  \<^verbatim>\<open>DecodeRuneInString\<close> and so is a valid one: the library's branch for an
  invalid rune is never taken.
\<close>

definition appendEscapedRune :: "(nat \<Rightarrow> bool) \<Rightarrow> nat \<Rightarrow> string \<Rightarrow> string" where
  "appendEscapedRune IsPrint r enc =
     (if r = 0x22 \<or> r = 0x5C then CHR 0x5C # enc
      else if is_print IsPrint r then enc
      else if r = 7 then [CHR 0x5C, CHR ''a'']
      else if r = 8 then [CHR 0x5C, CHR ''b'']
      else if r = 12 then [CHR 0x5C, CHR ''f'']
      else if r = 10 then [CHR 0x5C, CHR ''n'']
      else if r = 13 then [CHR 0x5C, CHR ''r'']
      else if r = 9 then [CHR 0x5C, CHR ''t'']
      else if r = 11 then [CHR 0x5C, CHR ''v'']
      else if r < 0x20 \<or> r = 0x7F then [CHR 0x5C, CHR ''x'', lowerhex (r div 16), lowerhex r]
      else if r < 0x10000
      then [CHR 0x5C, CHR ''u'', lowerhex (r div 4096), lowerhex (r div 256),
            lowerhex (r div 16), lowerhex r]
      else [CHR 0x5C, CHR ''U'', lowerhex (r div 268435456), lowerhex (r div 16777216),
            lowerhex (r div 1048576), lowerhex (r div 65536), lowerhex (r div 4096),
            lowerhex (r div 256), lowerhex (r div 16), lowerhex r])"

text \<open>
  The loop of \<^verbatim>\<open>appendQuotedWith\<close>: decode a rune, write a byte that is no
  well-formed UTF-8 as \<^verbatim>\<open>\x\<close> and two digits, anything else through
  \<^verbatim>\<open>appendEscapedRune\<close>, and go on after the rune.
\<close>

function appendQuoted :: "(nat \<Rightarrow> bool) \<Rightarrow> string \<Rightarrow> string" where
  "appendQuoted IsPrint [] = []"
| "appendQuoted IsPrint (c # s) =
     (case DecodeRuneInString (c # s) of
        (r, width) \<Rightarrow>
          (if width = 1 \<and> r = RuneError
           then [CHR 0x5C, CHR ''x'', lowerhex (of_char c div 16), lowerhex (of_char c)]
           else appendEscapedRune IsPrint r (take width (c # s)))
          @ appendQuoted IsPrint (drop (width - 1) s))"
  by pat_completeness auto
termination
  by (relation "measure (\<lambda>(IsPrint, s). length s)") auto

text \<open>\<^verbatim>\<open>strconv.Quote\<close>: the escaped text between two double quotes.\<close>

definition quote :: "(nat \<Rightarrow> bool) \<Rightarrow> string \<Rightarrow> string" where
  "quote IsPrint s = CHR 0x22 # appendQuoted IsPrint s @ [CHR 0x22]"

text \<open>
  The loop of \<^verbatim>\<open>Error\<close> over the fields, with its two variables \<^verbatim>\<open>msg\<close> and
  \<^verbatim>\<open>first\<close>.
\<close>

fun render_fields ::
  "(nat \<Rightarrow> bool) \<Rightarrow> string \<Rightarrow> bool \<Rightarrow> (string \<times> string) list \<Rightarrow> string" where
  "render_fields IsPrint msg first [] = msg"
| "render_fields IsPrint msg first ((k, v) # rest) =
     render_fields IsPrint
       ((if \<not> first then msg @ '', '' else msg) @ quote IsPrint k @ '':'' @ quote IsPrint v)
       False rest"

text \<open>\<^verbatim>\<open>Error\<close> up to its last \<^verbatim>\<open>if\<close>: the prefix and the fields.\<close>

definition render_head :: "(nat \<Rightarrow> bool) \<Rightarrow> heap \<Rightarrow> AppError \<Rightarrow> string" where
  "render_head IsPrint h e =
     (let msg = ''['' @ Service e @ '':'' @ Code e @ ''] '' @ Message e
      in if len h (Fields e) > 0
         then render_fields IsPrint (msg @ '' [fields:{'') True (range_of h (Fields e)) @ ''}]''
         else msg)"

text \<open>\<^verbatim>\<open>msg += ": " + e.cause.Error()\<close>, given what the call on the cause did.\<close>

definition append_cause :: "string \<Rightarrow> string result \<Rightarrow> string result" where
  "append_cause msg r = (case r of Panics \<Rightarrow> Panics | Returns s \<Rightarrow> Returns (msg @ '': '' @ s))"

text \<open>
  The method \<^verbatim>\<open>Error\<close> called on a value of type \<^verbatim>\<open>error\<close>: a panic on the nil
  interface, the text of a foreign error, and \<^verbatim>\<open>func (e *AppError) Error() string\<close>
  on a \<^verbatim>\<open>*AppError\<close>. The call on the cause follows pointers of the store, so it
  is a partial function: \<open>None\<close> is a call that does not return.
\<close>

partial_function (option) Error ::
  "(nat \<Rightarrow> bool) \<Rightarrow> heap \<Rightarrow> error \<Rightarrow> string result option" where
  "Error IsPrint h err =
     (case err of
        NilError \<Rightarrow> Some Panics
      | Foreign s inner \<Rightarrow> Some (Returns s)
      | AppErrorPtr p \<Rightarrow>
          (case deref h p of
             Panics \<Rightarrow> Some Panics
           | Returns e \<Rightarrow>
               if cause e \<noteq> NilError
               then Option.bind (Error IsPrint h (cause e))
                      (\<lambda>r. Some (append_cause (render_head IsPrint h e) r))
               else Some (Returns (render_head IsPrint h e))))"

declare Error.simps [code]

section \<open>grpc.go: the wire status\<close>

text \<open>
  \<^verbatim>\<open>codes.Code\<close> of google.golang.org/grpc is a \<^verbatim>\<open>uint32\<close>; the three codes the
  package names are \<^verbatim>\<open>OK\<close> = 0 (the zero value of \<^verbatim>\<open>grpcCode\<close>), \<^verbatim>\<open>Unknown\<close> = 2
  and \<^verbatim>\<open>Internal\<close> = 13.
\<close>

definition OK :: "32 word" where "OK = 0"

definition Unknown :: "32 word" where "Unknown = 2"

definition Internal :: "32 word" where "Internal = 13"

text \<open>
  A detail attached to a status, as \<^verbatim>\<open>st.Details()\<close> yields it: a
  \<^verbatim>\<open>*pb.ErrorDetail\<close> with its service, code, message and the entries of its fields,
  or anything else (a message of another type, or an entry that did not decode).
\<close>

datatype detail = ErrorDetail string string string "(string \<times> string) list" | OtherDetail

text \<open>\<^verbatim>\<open>*status.Status\<close>: code, message and details; the pointer may be nil.\<close>

record Status =
  st_code :: "32 word"
  st_message :: string
  st_details :: "detail list"

text \<open>\<^verbatim>\<open>status.New(c, msg)\<close>.\<close>

definition status_New :: "32 word \<Rightarrow> string \<Rightarrow> Status" where
  "status_New c msg = \<lparr>st_code = c, st_message = msg, st_details = []\<rparr>"

text \<open>
  \<^verbatim>\<open>st.WithDetails(detail)\<close> of google.golang.org/grpc/status: an error for a
  status with code \<^verbatim>\<open>OK\<close> and when the detail does not marshal, otherwise a copy of
  the status with the detail appended. Whether the codec marshals a detail is the
  parameter \<open>marshals\<close>.
\<close>

definition WithDetails :: "(detail \<Rightarrow> bool) \<Rightarrow> Status \<Rightarrow> detail \<Rightarrow> Status option" where
  "WithDetails marshals s d =
     (if st_code s = OK then None
      else if marshals d then Some (s\<lparr>st_details := st_details s @ [d]\<rparr>)
      else None)"

text \<open>\<^verbatim>\<open>func (e *AppError) WithGRPCCode(code codes.Code) *AppError\<close>.\<close>

definition WithGRPCCode :: "heap \<Rightarrow> addr option \<Rightarrow> 32 word \<Rightarrow> (addr option \<times> heap) result" where
  "WithGRPCCode h e code =
     (case deref h e of
        Panics \<Rightarrow> Panics
      | Returns copyErr \<Rightarrow> Returns (new_struct h (copyErr\<lparr>grpcCode := code\<rparr>)))"

text \<open>\<^verbatim>\<open>func (e *AppError) GRPCStatus() *status.Status\<close>; the result is never nil.\<close>

definition GRPCStatus :: "(detail \<Rightarrow> bool) \<Rightarrow> heap \<Rightarrow> addr option \<Rightarrow> Status result" where
  "GRPCStatus marshals h e =
     (case deref h e of
        Panics \<Rightarrow> Panics
      | Returns v \<Rightarrow>
          (let code = (if grpcCode v = OK then Unknown else grpcCode v);
               st = status_New code (Message v);
               detail = ErrorDetail (Service v) (Code v) (Message v) (range_of h (Fields v))
           in case WithDetails marshals st detail of
                None \<Rightarrow> Returns (status_New Internal ''failed to marshal error'')
              | Some stWithDetail \<Rightarrow> Returns stWithDetail))"

text \<open>
  The map of a decoded detail, \<^verbatim>\<open>detail.GetFields()\<close>: nil when the detail carries
  no entry, otherwise a new table holding the entries.
\<close>

definition GetFields :: "heap \<Rightarrow> (string \<times> string) list \<Rightarrow> ErrorFields \<times> heap" where
  "GetFields h entries =
     (if entries = [] then (None, h)
      else let (m, h1) = make_map h in (Some m, assign_all h1 m entries))"

text \<open>
  The loop of \<^verbatim>\<open>FromGRPCStatus\<close> over \<^verbatim>\<open>st.Details()\<close>: the first
  \<^verbatim>\<open>*pb.ErrorDetail\<close> decides; with none, the fallback after the loop.
\<close>

fun scan_details :: "heap \<Rightarrow> Status \<Rightarrow> detail list \<Rightarrow> addr option \<times> heap" where
  "scan_details h st [] =
     new_struct h
       (zero_AppError\<lparr>Service := ''unknown'', Code := ''00000'', Message := st_message st,
          grpcCode := st_code st\<rparr>)"
| "scan_details h st (ErrorDetail service code message entries # rest) =
     (let (m, h1) = GetFields h entries
      in new_struct h1
           (zero_AppError\<lparr>Service := service, Code := code, Message := message, Fields := m,
              grpcCode := st_code st\<rparr>))"
| "scan_details h st (OtherDetail # rest) = scan_details h st rest"

text \<open>\<^verbatim>\<open>func FromGRPCStatus(st *status.Status) *AppError\<close>.\<close>

definition FromGRPCStatus :: "heap \<Rightarrow> Status option \<Rightarrow> addr option \<times> heap" where
  "FromGRPCStatus h st =
     (case st of
        None \<Rightarrow> (None, h)
      | Some s \<Rightarrow> scan_details h s (st_details s))"

section \<open>gateway.go: serialization for logs\<close>

text \<open>
  A \<^verbatim>\<open>context.Context\<close>, as far as \<^verbatim>\<open>ToJSON\<close> reads it: the nil interface, or a
  context together with the result of \<^verbatim>\<open>ctx.Value(TraceIDKey{}).(string)\<close>, the
  string stored under the key if there is one.
\<close>

datatype Context = NilContext | Ctx "string option"

text \<open>A JSON document: the strings and objects \<^verbatim>\<open>json.Marshal\<close> builds here.\<close>

datatype json = JString string | JObject "(string \<times> json) list"

text \<open>
  The bytes \<^verbatim>\<open>ToJSON\<close> returns: either spelled out by the code itself, or the
  encoding \<^verbatim>\<open>json.Marshal\<close> gives a document.
\<close>

datatype bytes = Literal string | Encoding json

text \<open>\<^verbatim>\<open>appErr.traceID = traceID\<close>: a write through the pointer.\<close>

definition assign_traceID :: "heap \<Rightarrow> addr option \<Rightarrow> string \<Rightarrow> heap result" where
  "assign_traceID h p t =
     (case p of
        None \<Rightarrow> Panics
      | Some a \<Rightarrow>
          if a < length (structs h)
          then Returns (h\<lparr>structs := (structs h)[a := (structs h ! a)\<lparr>traceID := t\<rparr>]\<rparr>)
          else Panics)"

text \<open>
  \<^verbatim>\<open>json.Marshal\<close> of the anonymous struct of \<^verbatim>\<open>ToJSON\<close>: the exported fields
  of the embedded \<^verbatim>\<open>*alias\<close> under their tags, then \<^verbatim>\<open>TraceID\<close>. A field tagged
  \<^verbatim>\<open>omitempty\<close> is left out when it is the empty string or a map of length 0.
  Strings and string maps always encode, so the result is never an error (\<open>Inl\<close>).
  \<^verbatim>\<open>encoding/json\<close> writes the keys of a map sorted; the members of an object carry
  no order, and the model lists them as the table does.
\<close>

definition Marshal :: "heap \<Rightarrow> AppError \<Rightarrow> string \<Rightarrow> string + json" where
  "Marshal h v TraceID =
     Inr (JObject
       ((if Service v = [] then [] else [(''service'', JString (Service v))]) @
        (if Code v = [] then [] else [(''code'', JString (Code v))]) @
        [(''message'', JString (Message v))] @
        (if len h (Fields v) = 0 then []
         else [(''fields'', JObject (map (\<lambda>(k, x). (k, JString x)) (range_of h (Fields v))))]) @
        (if TraceID = [] then [] else [(''trace_id'', JString TraceID)])))"

text \<open>
  \<^verbatim>\<open>func ToJSON(ctx context.Context, err error) []byte\<close> (gateway.go, lines
  124-153). The type assertion fails on the nil interface and on a foreign error, and
  the code then calls \<^verbatim>\<open>err.Error()\<close>. On a \<^verbatim>\<open>*AppError\<close> the trace id found in
  the context is written into the struct before it is read back for marshalling.
\<close>

definition ToJSON :: "heap \<Rightarrow> Context \<Rightarrow> error \<Rightarrow> (bytes \<times> heap) result" where
  \<open>ToJSON h ctx err =
     (case err of
        NilError \<Rightarrow> Panics
      | Foreign s inner \<Rightarrow> Returns (Literal (''{"error":"'' @ s @ ''"}''), h)
      | AppErrorPtr appErr \<Rightarrow>
          (case ctx of
             NilContext \<Rightarrow> Panics
           | Ctx found \<Rightarrow>
               (case (case found of
                        Some traceID' \<Rightarrow> assign_traceID h appErr traceID'
                      | None \<Rightarrow> Returns h) of
                  Panics \<Rightarrow> Panics
                | Returns h1 \<Rightarrow>
                    (case deref h1 appErr of
                       Panics \<Rightarrow> Panics
                     | Returns v \<Rightarrow>
                         (case Marshal h1 v (traceID v) of
                            Inl marshalErr \<Rightarrow>
                              Returns
                                (Literal
                                   (''{"error":"failed to marshal app error: '' @ marshalErr
                                    @ ''"}''), h1)
                          | Inr b \<Rightarrow> Returns (Encoding b, h1))))))\<close>

text \<open>
  \<^verbatim>\<open>errors.As(err, &appErr)\<close> with \<^verbatim>\<open>appErr\<close> of type \<^verbatim>\<open>*AppError\<close>: the first
  \<^verbatim>\<open>*AppError\<close> on the chain of \<^verbatim>\<open>Unwrap\<close>, if any.
\<close>

fun errors_As :: "error \<Rightarrow> addr option option" where
  "errors_As NilError = None"
| "errors_As (AppErrorPtr p) = Some p"
| "errors_As (Foreign s inner) = errors_As inner"

text \<open>
  The other \<^verbatim>\<open>ToJSON\<close> of gateway.go (lines 83-113), which finds the
  \<^verbatim>\<open>*AppError\<close> with \<^verbatim>\<open>errors.As\<close> and takes the trace id from the OpenTelemetry
  span of the context: \<open>found\<close> is then the span's trace id, when it has one, and a nil
  context has no span.
\<close>

definition ToJSON_As :: "heap \<Rightarrow> Context \<Rightarrow> error \<Rightarrow> (bytes \<times> heap) result" where
  \<open>ToJSON_As h ctx err =
     (case errors_As err of
        None \<Rightarrow>
          (case err of
             NilError \<Rightarrow> Panics
           | Foreign s inner \<Rightarrow> Returns (Literal (''{"error":"'' @ s @ ''"}''), h)
           | AppErrorPtr p \<Rightarrow> Panics)
      | Some appErr \<Rightarrow>
          (case (case ctx of
                   Ctx (Some traceID') \<Rightarrow> assign_traceID h appErr traceID'
                 | _ \<Rightarrow> Returns h) of
             Panics \<Rightarrow> Panics
           | Returns h1 \<Rightarrow>
               (case deref h1 appErr of
                  Panics \<Rightarrow> Panics
                | Returns v \<Rightarrow>
                    (case Marshal h1 v (traceID v) of
                       Inl marshalErr \<Rightarrow>
                         Returns
                           (Literal
                              (''{"error":"failed to marshal app error: '' @ marshalErr
                               @ ''"}''), h1)
                     | Inr b \<Rightarrow> Returns (Encoding b, h1)))))\<close>

section \<open>What a call leaves untouched\<close>

text \<open>
  \<open>preserved h h'\<close>: every struct and every table of the store \<open>h\<close> is still in
  \<open>h'\<close>, at its address and with its contents; \<open>h'\<close> may hold new ones.
\<close>

definition preserved :: "heap \<Rightarrow> heap \<Rightarrow> bool" where
  "preserved h h' \<longleftrightarrow>
     take (length (structs h)) (structs h') = structs h \<and>
     take (length (tables h)) (tables h') = tables h"

text \<open>A map value of the store \<open>h\<close>: nil, or the address of one of its tables.\<close>

definition allocated :: "heap \<Rightarrow> ErrorFields \<Rightarrow> bool" where
  "allocated h m = (case m of None \<Rightarrow> True | Some a \<Rightarrow> a < length (tables h))"

section \<open>The scenarios of the specification\<close>

text \<open>
  \<^verbatim>\<open>e := template.WithField(k, v)\<close> followed by \<^verbatim>\<open>template.Is(e)\<close>: the test
  with the template as receiver and the enriched value as argument.
\<close>

definition template_Is_enriched :: "heap \<Rightarrow> addr option \<Rightarrow> string \<Rightarrow> string \<Rightarrow> bool result" where
  "template_Is_enriched h template k v =
     (case WithField h template k v of
        Panics \<Rightarrow> Panics
      | Returns (e, h') \<Rightarrow> Is h' template (AppErrorPtr e))"

text \<open>The same with the roles swapped, \<^verbatim>\<open>e.Is(template)\<close>.\<close>

definition enriched_Is_template :: "heap \<Rightarrow> addr option \<Rightarrow> string \<Rightarrow> string \<Rightarrow> bool result" where
  "enriched_Is_template h template k v =
     (case WithField h template k v of
        Panics \<Rightarrow> Panics
      | Returns (e, h') \<Rightarrow> Is h' e (AppErrorPtr template))"

text \<open>
  The text the specification gives for the fields in the rendering: nothing when there
  is no field, otherwise \<^verbatim>\<open> [fields:{"k1":"v1", ...}]\<close> with the entries separated
  by a comma and a space. How a key or a value is written is the argument \<open>w\<close>.
\<close>

definition spec_fields_text :: "(string \<Rightarrow> string) \<Rightarrow> (string \<times> string) list \<Rightarrow> string" where
  "spec_fields_text w es =
     (case es of
        [] \<Rightarrow> []
      | (k1, v1) # rest \<Rightarrow>
          '' [fields:{'' @ w k1 @ '':'' @ w v1 @
          concat (map (\<lambda>(k, v). '', '' @ w k @ '':'' @ w v) rest) @ ''}]'')"

text \<open>A string written as the specification shows it: as it is, between double quotes.\<close>

definition in_double_quotes :: "string \<Rightarrow> string" where
  "in_double_quotes s = CHR 0x22 # s @ [CHR 0x22]"

text \<open>
  The characters that need no escape: printable ASCII other than the double quote and
  the backslash.
\<close>

definition plain :: "char \<Rightarrow> bool" where
  "plain c =
     (0x20 \<le> (of_char c :: nat) \<and> (of_char c :: nat) < 0x7F \<and>
      (of_char c :: nat) \<noteq> 0x22 \<and> (of_char c :: nat) \<noteq> 0x5C)"

text \<open>
  \<^verbatim>\<open>New(service, code, message).WithField(k, v).Error()\<close>, started in the store
  \<open>h\<close>.
\<close>

definition Error_New_WithField ::
  "(nat \<Rightarrow> bool) \<Rightarrow> heap \<Rightarrow> string \<Rightarrow> string \<Rightarrow> string \<Rightarrow> string \<Rightarrow> string \<Rightarrow>
   string result option" where
  "Error_New_WithField IsPrint h service code message k v =
     (case New h service code message of
        (t, h1) \<Rightarrow>
          (case WithField h1 t k v of
             Panics \<Rightarrow> Some Panics
           | Returns (e, h2) \<Rightarrow> Error IsPrint h2 (AppErrorPtr e)))"

text \<open>
  \<^verbatim>\<open>ToJSON(ctx1, e)\<close> followed by \<^verbatim>\<open>ToJSON(ctx2, e)\<close> on the same value: the
  bytes of the second call.
\<close>

definition ToJSON_twice :: "heap \<Rightarrow> addr option \<Rightarrow> Context \<Rightarrow> Context \<Rightarrow> bytes result" where
  "ToJSON_twice h e ctx1 ctx2 =
     (case ToJSON h ctx1 (AppErrorPtr e) of
        Panics \<Rightarrow> Panics
      | Returns (b1, h1) \<Rightarrow>
          (case ToJSON h1 ctx2 (AppErrorPtr e) of
             Panics \<Rightarrow> Panics
           | Returns (b2, h2) \<Rightarrow> Returns b2))"

text \<open>
  A store for the examples: one struct, wrapping a foreign error, with the gRPC code
  \<^verbatim>\<open>NotFound\<close> (5) and the map \<^verbatim>\<open>{"id": "456"}\<close> (table 0); table 1 is the map
  \<^verbatim>\<open>{"id": "789", "attempt": "1"}\<close>.
\<close>

definition example_store :: heap where
  "example_store =
     \<lparr>structs =
        [zero_AppError\<lparr>Service := ''user-service'', Code := ''US-404'',
           Message := ''user not found'', Fields := Some 0,
           cause := Foreign ''connection refused'' NilError, grpcCode := 5\<rparr>],
      tables =
        [DAList.update ''id'' ''456'' DAList.empty,
         DAList.update ''attempt'' ''1'' (DAList.update ''id'' ''789'' DAList.empty)]\<rparr>"

section \<open>Lemmas on the store\<close>

lemma take_eq_iff_append: "take (length xs) ys = xs \<longleftrightarrow> (\<exists>zs. ys = xs @ zs)"
proof
  assume "take (length xs) ys = xs"
  then have "ys = xs @ drop (length xs) ys"
    by (metis append_take_drop_id)
  then show "\<exists>zs. ys = xs @ zs" ..
next
  assume "\<exists>zs. ys = xs @ zs"
  then show "take (length xs) ys = xs" by auto
qed

lemma preserved_iff:
  "preserved h h' \<longleftrightarrow> (\<exists>ss ts. structs h' = structs h @ ss \<and> tables h' = tables h @ ts)"
  by (auto simp: preserved_def take_eq_iff_append)

lemma preserved_refl: "preserved h h"
  by (simp add: preserved_def)

lemma preserved_trans: "preserved h1 h2 \<Longrightarrow> preserved h2 h3 \<Longrightarrow> preserved h1 h3"
  by (auto simp: preserved_iff)

lemma preserved_deref: "preserved h h' \<Longrightarrow> deref h p = Returns v \<Longrightarrow> deref h' p = Returns v"
  by (auto simp: preserved_iff deref_def nth_append split: option.splits if_splits)

lemma preserved_table: "preserved h h' \<Longrightarrow> allocated h m \<Longrightarrow> table h' m = table h m"
  by (auto simp: preserved_iff table_def allocated_def nth_append split: option.splits)

lemma preserved_new_struct: "preserved h (snd (new_struct h v))"
  by (simp add: preserved_iff new_struct_def)

lemma deref_new_struct: "deref (snd (new_struct h v)) (fst (new_struct h v)) = Returns v"
  by (simp add: new_struct_def deref_def)

lemma table_new_struct: "table (snd (new_struct h v)) m = table h m"
  by (simp add: new_struct_def table_def split: option.splits)

subsection \<open>Filling a table\<close>

lemma structs_mapassign: "structs (mapassign h a k v) = structs h"
  by (simp add: mapassign_def)

lemma structs_assign_all: "structs (assign_all h a es) = structs h"
  by (induction h a es rule: assign_all.induct) (simp_all add: structs_mapassign)

lemma tables_assign_all_new:
  "tables h = ts @ [t] \<Longrightarrow>
   tables (assign_all h (length ts) es) = ts @ [fold (\<lambda>(k, v). DAList.update k v) es t]"
  by (induction h "length ts" es arbitrary: t rule: assign_all.induct) (simp_all add: mapassign_def)

lemma update_fresh: "k \<notin> fst ` set xs \<Longrightarrow> AList.update k v xs = xs @ [(k, v)]"
  by (induction xs) auto

lemma impl_of_fold_update:
  "distinct (map fst (DAList.impl_of t @ es)) \<Longrightarrow>
   DAList.impl_of (fold (\<lambda>(k, v). DAList.update k v) es t) = DAList.impl_of t @ es"
proof (induction es arbitrary: t)
  case Nil
  then show ?case by simp
next
  case (Cons kv es)
  obtain k v where kv: "kv = (k, v)" by (cases kv)
  from Cons.prems have fresh: "k \<notin> fst ` set (DAList.impl_of t)"
    by (auto simp: kv)
  have step: "DAList.impl_of (DAList.update k v t) = DAList.impl_of t @ [(k, v)]"
    by (simp add: DAList.update.rep_eq update_fresh [OF fresh])
  from Cons.prems have "distinct (map fst (DAList.impl_of (DAList.update k v t) @ es))"
    by (simp add: step kv)
  from Cons.IH [OF this] show ?case
    by (simp add: kv step)
qed

lemma new_struct_eq: "new_struct h v = (Some (length (structs h)), h\<lparr>structs := structs h @ [v]\<rparr>)"
  by (simp add: new_struct_def)

lemma preserved_assign_all_new:
  assumes "tables h1 = tables h @ [t]" and "structs h1 = structs h"
  shows "preserved h (assign_all h1 (length (tables h)) es)"
  using tables_assign_all_new [OF assms(1), of es] assms(2)
  by (simp add: preserved_iff structs_assign_all)

subsection \<open>Decoding\<close>

lemma GetFields_preserved: "preserved h (snd (GetFields h es))"
proof (cases "es = []")
  case True
  then show ?thesis by (simp add: GetFields_def preserved_refl)
next
  case False
  have "preserved h (assign_all (h\<lparr>tables := tables h @ [DAList.empty]\<rparr>) (length (tables h)) es)"
    by (rule preserved_assign_all_new) simp_all
  with False show ?thesis by (simp add: GetFields_def make_map_def)
qed

lemma GetFields_structs: "structs (snd (GetFields h es)) = structs h"
  by (simp add: GetFields_def make_map_def structs_assign_all split: prod.splits)

lemma GetFields_table:
  assumes "distinct (map fst es)"
  shows "DAList.impl_of (table (snd (GetFields h es)) (fst (GetFields h es))) = es"
proof (cases "es = []")
  case True
  then show ?thesis by (simp add: GetFields_def table_def DAList.empty.rep_eq)
next
  case False
  let ?h1 = "h\<lparr>tables := tables h @ [DAList.empty]\<rparr>"
  have t: "tables (assign_all ?h1 (length (tables h)) es) =
             tables h @ [fold (\<lambda>(k, v). DAList.update k v) es DAList.empty]"
    by (rule tables_assign_all_new) simp
  have "DAList.impl_of (fold (\<lambda>(k, v). DAList.update k v) es DAList.empty) = DAList.impl_of DAList.empty @ es"
    by (rule impl_of_fold_update) (simp add: DAList.empty.rep_eq assms)
  with False t show ?thesis
    by (simp add: GetFields_def make_map_def table_def DAList.empty.rep_eq)
qed

lemma scan_details_result:
  "\<exists>v h'. scan_details h st ds = (Some (length (structs h)), h') \<and>
          deref h' (Some (length (structs h))) = Returns v \<and> cause v = NilError \<and>
          grpcCode v = st_code st \<and> preserved h h'"
proof (induction h st ds rule: scan_details.induct)
  case (1 h st)
  then show ?case
    by (simp add: new_struct_eq deref_def zero_AppError_def preserved_iff)
next
  case (2 h st service code message entries rest)
  obtain m h1 where g: "GetFields h entries = (m, h1)" by (cases "GetFields h entries")
  have "preserved h h1" and "structs h1 = structs h"
    using GetFields_preserved [of h entries] GetFields_structs [of h entries] g by simp_all
  moreover have "preserved h1 (snd (new_struct h1 v))" for v
    by (rule preserved_new_struct)
  ultimately show ?case
    using g by (auto simp: new_struct_eq deref_def zero_AppError_def intro: preserved_trans simp: preserved_iff)
next
  case (3 h st rest)
  then show ?case by simp
qed

lemma scan_details_fallback:
  "list_all (\<lambda>d. d = OtherDetail) ds \<Longrightarrow>
   scan_details h st ds =
     new_struct h (zero_AppError\<lparr>Service := ''unknown'', Code := ''00000'',
       Message := st_message st, grpcCode := st_code st\<rparr>)"
  by (induction h st ds rule: scan_details.induct) simp_all

subsection \<open>The example store\<close>

lemma example_store_deref:
  "deref example_store (Some 0) =
     Returns (zero_AppError\<lparr>Service := ''user-service'', Code := ''US-404'',
       Message := ''user not found'', Fields := Some 0,
       cause := Foreign ''connection refused'' NilError, grpcCode := 5\<rparr>)"
  by (simp add: example_store_def deref_def)

lemma example_store_range:
  "range_of example_store (Some 0) = [(''id'', ''456'')]"
  "range_of example_store (Some 1) = [(''id'', ''789''), (''attempt'', ''1'')]"
  by (simp_all add: example_store_def range_of_def table_def DAList.update.rep_eq
        DAList.empty.rep_eq)

section \<open>The claims\<close>

text \<open>
  C4. \<^verbatim>\<open>FromGRPCStatus\<close> has no failing branch: a nil status gives nil and leaves
  the store alone, every other status gives a pointer to a struct, and a status none of
  whose details is a \<^verbatim>\<open>*pb.ErrorDetail\<close> gives a new struct with service
  \<^verbatim>\<open>"unknown"\<close>, code \<^verbatim>\<open>"00000"\<close>, the message and the code of the status, and
  everything else zero.
\<close>

theorem FromGRPCStatus_total_fallback:
  "FromGRPCStatus h None = (None, h) \<and>
   (\<exists>p h' v. FromGRPCStatus h (Some s) = (p, h') \<and> deref h' p = Returns v) \<and>
   (list_all (\<lambda>d. d = OtherDetail) (st_details s) \<longrightarrow>
      (\<exists>p h'. FromGRPCStatus h (Some s) = (p, h') \<and>
         deref h' p =
           Returns (zero_AppError\<lparr>Service := ''unknown'', Code := ''00000'',
             Message := st_message s, grpcCode := st_code s\<rparr>) \<and>
         preserved h h'))"
proof (intro conjI impI)
  show "FromGRPCStatus h None = (None, h)"
    by (simp add: FromGRPCStatus_def)
next
  from scan_details_result [of h s "st_details s"]
  show "\<exists>p h' v. FromGRPCStatus h (Some s) = (p, h') \<and> deref h' p = Returns v"
    by (auto simp: FromGRPCStatus_def)
next
  assume "list_all (\<lambda>d. d = OtherDetail) (st_details s)"
  then have "FromGRPCStatus h (Some s) =
      new_struct h (zero_AppError\<lparr>Service := ''unknown'', Code := ''00000'',
        Message := st_message s, grpcCode := st_code s\<rparr>)"
    by (simp add: FromGRPCStatus_def scan_details_fallback)
  then show "\<exists>p h'. FromGRPCStatus h (Some s) = (p, h') \<and>
         deref h' p =
           Returns (zero_AppError\<lparr>Service := ''unknown'', Code := ''00000'',
             Message := st_message s, grpcCode := st_code s\<rparr>) \<and>
         preserved h h'"
    using deref_new_struct preserved_new_struct
    by (metis prod.collapse)
qed

theorem FromGRPCStatus_total_fallback_witness:
  "list_all (\<lambda>d. d = OtherDetail) (st_details (status_New Unknown ''boom'')) \<and>
   (\<exists>p h'. FromGRPCStatus empty_heap (Some (status_New Unknown ''boom'')) = (p, h') \<and>
      deref h' p =
        Returns (zero_AppError\<lparr>Service := ''unknown'', Code := ''00000'',
          Message := ''boom'', grpcCode := 2\<rparr>))"
  using FromGRPCStatus_total_fallback [of empty_heap "status_New Unknown ''boom''"]
  by (auto simp: status_New_def Unknown_def)

text \<open>
  C5. \<^verbatim>\<open>Wrap\<close> of the nil error is nil, whatever the template (a nil template
  included), and the store is left as it was. For any other cause and a template that
  points to a struct, \<^verbatim>\<open>Wrap\<close> returns a pointer other than the template, to a copy
  of the template's struct whose cause is the given error; the template still points to
  the struct it did, and no struct or table of the store has changed.
\<close>

theorem Wrap_absent_and_copy:
  "Wrap h NilError template = Returns (None, h) \<and>
   (err \<noteq> NilError \<and> deref h template = Returns t \<longrightarrow>
      (\<exists>p h'. Wrap h err template = Returns (p, h') \<and>
         deref h' p = Returns (t\<lparr>cause := err\<rparr>) \<and> p \<noteq> template \<and>
         deref h' template = Returns t \<and> preserved h h'))"
proof (intro conjI impI)
  show "Wrap h NilError template = Returns (None, h)"
    by (simp add: Wrap_def)
next
  assume a: "err \<noteq> NilError \<and> deref h template = Returns t"
  let ?new = "new_struct h (t\<lparr>cause := err\<rparr>)"
  from a have w: "Wrap h err template = Returns (fst ?new, snd ?new)"
    by (simp add: Wrap_def)
  have d: "deref (snd ?new) (fst ?new) = Returns (t\<lparr>cause := err\<rparr>)"
    by (rule deref_new_struct)
  have p: "preserved h (snd ?new)"
    by (rule preserved_new_struct)
  from a have ne: "fst ?new \<noteq> template"
    by (auto simp: new_struct_eq deref_def split: option.splits if_splits)
  from a p have old: "deref (snd ?new) template = Returns t"
    by (simp add: preserved_deref)
  from w d ne old p
  show "\<exists>p h'. Wrap h err template = Returns (p, h') \<and>
         deref h' p = Returns (t\<lparr>cause := err\<rparr>) \<and> p \<noteq> template \<and>
         deref h' template = Returns t \<and> preserved h h'"
    by blast
qed

theorem Wrap_absent_and_copy_witness:
  "Foreign ''connection refused'' NilError \<noteq> NilError \<and>
   deref (snd (New empty_heap ''database'' ''DB-500'' ''internal database error'')) (Some 0) =
     Returns (zero_AppError\<lparr>Service := ''database'', Code := ''DB-500'',
       Message := ''internal database error''\<rparr>) \<and>
   (\<exists>p h'. Wrap (snd (New empty_heap ''database'' ''DB-500'' ''internal database error''))
              (Foreign ''connection refused'' NilError) (Some 0) = Returns (p, h') \<and>
      deref h' p =
        Returns (zero_AppError\<lparr>Service := ''database'', Code := ''DB-500'',
          Message := ''internal database error'',
          cause := Foreign ''connection refused'' NilError\<rparr>) \<and>
      deref h' (Some 0) =
        Returns (zero_AppError\<lparr>Service := ''database'', Code := ''DB-500'',
          Message := ''internal database error''\<rparr>))"
proof -
  let ?h = "snd (New empty_heap ''database'' ''DB-500'' ''internal database error'')"
  let ?t = "zero_AppError\<lparr>Service := ''database'', Code := ''DB-500'',
              Message := ''internal database error''\<rparr>"
  let ?err = "Foreign ''connection refused'' NilError"
  have hyp: "?err \<noteq> NilError \<and> deref ?h (Some 0) = Returns ?t"
    by (simp add: New_def new_struct_eq empty_heap_def deref_def)
  with Wrap_absent_and_copy [of ?h "Some 0" ?err ?t]
  have "\<exists>p h'. Wrap ?h ?err (Some 0) = Returns (p, h') \<and>
          deref h' p = Returns (?t\<lparr>cause := ?err\<rparr>) \<and> p \<noteq> Some 0 \<and>
          deref h' (Some 0) = Returns ?t \<and> preserved ?h h'"
    by blast
  with hyp show ?thesis by blast
qed

text \<open>
  C8. \<^verbatim>\<open>ToJSON\<close> called with the nil error does not return a minimal object: the
  type assertion fails and the call \<^verbatim>\<open>err.Error()\<close> on the nil interface panics, in
  both versions of the function and whatever the context.
\<close>

theorem ToJSON_nil_error_panics:
  "ToJSON h ctx NilError = Panics \<and> ToJSON_As h ctx NilError = Panics"
  by (simp add: ToJSON_def ToJSON_As_def)

text \<open>An error of another type does get the minimal object.\<close>

lemma ToJSON_foreign_error:
  \<open>ToJSON h ctx (Foreign s inner) = Returns (Literal (''{"error":"'' @ s @ ''"}''), h)\<close>
  by (simp add: ToJSON_def)

lemma Unwrap_cause: "deref h p = Returns v \<Longrightarrow> Unwrap h p = Returns (cause v)"
  by (simp add: Unwrap_def)

lemma GRPCStatus_returns:
  "deref h e = Returns ev \<Longrightarrow> \<exists>st. GRPCStatus marshals h e = Returns st"
  by (simp add: GRPCStatus_def Let_def split: option.splits)

text \<open>
  C10. The struct \<^verbatim>\<open>FromGRPCStatus\<close> builds from any status has the nil cause,
  so \<^verbatim>\<open>Unwrap\<close> on the result returns nil; in particular for the status
  \<^verbatim>\<open>GRPCStatus\<close> makes of a value \<^verbatim>\<open>e\<close>, whatever the cause of \<^verbatim>\<open>e\<close>, whether
  or not the detail marshals, and in whatever store \<open>hr\<close> the receiving side decodes.
\<close>

theorem decoded_cause_absent:
  "(\<exists>p h'. FromGRPCStatus hr (Some s) = (p, h') \<and> Unwrap h' p = Returns NilError) \<and>
   (deref h e = Returns ev \<longrightarrow>
      (\<exists>st p h'. GRPCStatus marshals h e = Returns st \<and>
         FromGRPCStatus hr (Some st) = (p, h') \<and> Unwrap h' p = Returns NilError))"
proof -
  have dec: "\<exists>p h'. FromGRPCStatus hr (Some x) = (p, h') \<and> Unwrap h' p = Returns NilError" for x
    using scan_details_result [of hr x "st_details x"]
    by (auto simp: FromGRPCStatus_def dest: Unwrap_cause)
  show ?thesis
  proof (intro conjI impI)
    show "\<exists>p h'. FromGRPCStatus hr (Some s) = (p, h') \<and> Unwrap h' p = Returns NilError"
      by (rule dec)
  next
    assume "deref h e = Returns ev"
    then obtain st where "GRPCStatus marshals h e = Returns st"
      using GRPCStatus_returns by blast
    with dec [of st]
    show "\<exists>st p h'. GRPCStatus marshals h e = Returns st \<and>
         FromGRPCStatus hr (Some st) = (p, h') \<and> Unwrap h' p = Returns NilError"
      by blast
  qed
qed

theorem decoded_cause_absent_witness:
  "deref example_store (Some 0) =
     Returns (zero_AppError\<lparr>Service := ''user-service'', Code := ''US-404'',
       Message := ''user not found'', Fields := Some 0,
       cause := Foreign ''connection refused'' NilError, grpcCode := 5\<rparr>) \<and>
   Unwrap example_store (Some 0) = Returns (Foreign ''connection refused'' NilError) \<and>
   (\<exists>st p h'. GRPCStatus (\<lambda>d. True) example_store (Some 0) = Returns st \<and>
      FromGRPCStatus empty_heap (Some st) = (p, h') \<and> Unwrap h' p = Returns NilError)"
proof -
  have u: "Unwrap example_store (Some 0) = Returns (Foreign ''connection refused'' NilError)"
    using example_store_deref by (simp add: Unwrap_def)
  from decoded_cause_absent
    [of empty_heap "status_New Unknown ''boom''" example_store "Some 0" _ "\<lambda>d. True"]
    example_store_deref
  have "\<exists>st p h'. GRPCStatus (\<lambda>d. True) example_store (Some 0) = Returns st \<and>
      FromGRPCStatus empty_heap (Some st) = (p, h') \<and> Unwrap h' p = Returns NilError"
    by blast
  with example_store_deref u show ?thesis
    by blast
qed

lemma GRPCStatus_encodes:
  assumes "deref h e = Returns ev"
    and "marshals (ErrorDetail (Service ev) (Code ev) (Message ev) (range_of h (Fields ev)))"
  shows "GRPCStatus marshals h e =
           Returns \<lparr>st_code = (if grpcCode ev = 0 then Unknown else grpcCode ev),
                    st_message = Message ev,
                    st_details = [ErrorDetail (Service ev) (Code ev) (Message ev)
                                    (range_of h (Fields ev))]\<rparr>"
  using assms
  by (simp add: GRPCStatus_def WithDetails_def status_New_def OK_def Unknown_def Let_def)

text \<open>
  When the detail does not marshal, the status is the generic internal one and nothing
  of the value is on the wire.
\<close>

lemma GRPCStatus_degrades:
  assumes "deref h e = Returns ev"
    and "\<not> marshals (ErrorDetail (Service ev) (Code ev) (Message ev) (range_of h (Fields ev)))"
  shows "GRPCStatus marshals h e = Returns (status_New Internal ''failed to marshal error'')"
  using assms by (simp add: GRPCStatus_def WithDetails_def Let_def)

lemma FromGRPCStatus_detail:
  assumes "distinct (map fst es)" and "st_details st = ErrorDetail service code message es # rest"
  shows "\<exists>p h' dv. FromGRPCStatus hr (Some st) = (p, h') \<and> deref h' p = Returns dv \<and>
           Service dv = service \<and> Code dv = code \<and> Message dv = message \<and>
           DAList.impl_of (table h' (Fields dv)) = es \<and> grpcCode dv = st_code st"
proof -
  obtain m h1 where g: "GetFields hr es = (m, h1)" by (cases "GetFields hr es")
  let ?v = "zero_AppError\<lparr>Service := service, Code := code, Message := message, Fields := m,
              grpcCode := st_code st\<rparr>"
  have dec: "FromGRPCStatus hr (Some st) = new_struct h1 ?v"
    using assms(2) g by (simp add: FromGRPCStatus_def)
  have "DAList.impl_of (table h1 m) = es"
    using GetFields_table [OF assms(1), of hr] g by simp
  then have "DAList.impl_of (table (snd (new_struct h1 ?v)) (Fields ?v)) = es"
    by (simp add: table_new_struct)
  moreover have "deref (snd (new_struct h1 ?v)) (fst (new_struct h1 ?v)) = Returns ?v"
    by (rule deref_new_struct)
  ultimately show ?thesis
    using dec by (intro exI [of _ "fst (new_struct h1 ?v)"] exI [of _ "snd (new_struct h1 ?v)"] exI [of _ ?v]) simp
qed

text \<open>
  C1. When the detail of \<^verbatim>\<open>e\<close> marshals, \<^verbatim>\<open>FromGRPCStatus(e.GRPCStatus())\<close>,
  decoded in any store \<open>hr\<close>, is a struct with the service, code and message of
  \<^verbatim>\<open>e\<close> and a map with the same table of entries; its \<^verbatim>\<open>grpcCode\<close> is that of
  \<^verbatim>\<open>e\<close>, except that the zero value (\<^verbatim>\<open>codes.OK\<close>, no code set) comes back as
  \<^verbatim>\<open>codes.Unknown\<close>.
\<close>

theorem roundtrip:
  assumes "deref h e = Returns ev"
    and "marshals (ErrorDetail (Service ev) (Code ev) (Message ev) (range_of h (Fields ev)))"
  shows "\<exists>st p h' dv. GRPCStatus marshals h e = Returns st \<and>
           FromGRPCStatus hr (Some st) = (p, h') \<and> deref h' p = Returns dv \<and>
           Service dv = Service ev \<and> Code dv = Code ev \<and> Message dv = Message ev \<and>
           table h' (Fields dv) = table h (Fields ev) \<and>
           grpcCode dv = (if grpcCode ev = 0 then Unknown else grpcCode ev)"
proof -
  let ?es = "range_of h (Fields ev)"
  let ?st = "\<lparr>st_code = (if grpcCode ev = 0 then Unknown else grpcCode ev),
              st_message = Message ev,
              st_details = [ErrorDetail (Service ev) (Code ev) (Message ev) ?es]\<rparr>"
  have enc: "GRPCStatus marshals h e = Returns ?st"
    using assms by (rule GRPCStatus_encodes [where marshals = marshals])
  have "distinct (map fst ?es)"
    by (simp add: range_of_def)
  moreover have "st_details ?st = ErrorDetail (Service ev) (Code ev) (Message ev) ?es # []"
    by simp
  ultimately obtain p h' dv where dec: "FromGRPCStatus hr (Some ?st) = (p, h')"
    "deref h' p = Returns dv" "Service dv = Service ev" "Code dv = Code ev"
    "Message dv = Message ev" "DAList.impl_of (table h' (Fields dv)) = ?es"
    "grpcCode dv = st_code ?st"
    using FromGRPCStatus_detail by blast
  from dec(6) have "table h' (Fields dv) = table h (Fields ev)"
    by (simp add: range_of_def DAList.impl_of_inject)
  with enc dec show ?thesis
    by (intro exI [of _ ?st] exI [of _ p] exI [of _ h'] exI [of _ dv]) simp
qed

theorem roundtrip_witness:
  "deref example_store (Some 0) =
     Returns (zero_AppError\<lparr>Service := ''user-service'', Code := ''US-404'',
       Message := ''user not found'', Fields := Some 0,
       cause := Foreign ''connection refused'' NilError, grpcCode := 5\<rparr>) \<and>
   (\<exists>st p h' dv. GRPCStatus (\<lambda>d. True) example_store (Some 0) = Returns st \<and>
      FromGRPCStatus empty_heap (Some st) = (p, h') \<and> deref h' p = Returns dv \<and>
      Service dv = ''user-service'' \<and> Code dv = ''US-404'' \<and> Message dv = ''user not found'' \<and>
      range_of h' (Fields dv) = [(''id'', ''456'')] \<and> grpcCode dv = 5) \<and>
   deref (snd (New empty_heap ''svc'' ''C1'' ''msg'')) (Some 0) =
     Returns (zero_AppError\<lparr>Service := ''svc'', Code := ''C1'', Message := ''msg''\<rparr>) \<and>
   (\<exists>st p h' dv. GRPCStatus (\<lambda>d. True) (snd (New empty_heap ''svc'' ''C1'' ''msg'')) (Some 0) =
        Returns st \<and>
      FromGRPCStatus empty_heap (Some st) = (p, h') \<and> deref h' p = Returns dv \<and>
      Service dv = ''svc'' \<and> Code dv = ''C1'' \<and> Message dv = ''msg'' \<and>
      range_of h' (Fields dv) = [] \<and> grpcCode dv = Unknown)"
proof -
  let ?e1 = "zero_AppError\<lparr>Service := ''user-service'', Code := ''US-404'',
       Message := ''user not found'', Fields := Some 0,
       cause := Foreign ''connection refused'' NilError, grpcCode := 5\<rparr>"
  let ?h0 = "snd (New empty_heap ''svc'' ''C1'' ''msg'')"
  let ?e0 = "zero_AppError\<lparr>Service := ''svc'', Code := ''C1'', Message := ''msg''\<rparr>"
  have d0: "deref ?h0 (Some 0) = Returns ?e0"
    by (simp add: New_def new_struct_eq empty_heap_def deref_def)
  have r0: "range_of ?h0 (Fields ?e0) = []"
    by (simp add: zero_AppError_def range_of_def table_def DAList.empty.rep_eq)
  have first: "\<exists>st p h' dv. GRPCStatus (\<lambda>d. True) example_store (Some 0) = Returns st \<and>
      FromGRPCStatus empty_heap (Some st) = (p, h') \<and> deref h' p = Returns dv \<and>
      Service dv = ''user-service'' \<and> Code dv = ''US-404'' \<and> Message dv = ''user not found'' \<and>
      range_of h' (Fields dv) = [(''id'', ''456'')] \<and> grpcCode dv = 5"
  proof -
    from roundtrip [of example_store "Some 0" ?e1 "\<lambda>d. True" empty_heap] example_store_deref
    obtain st p h' dv where "GRPCStatus (\<lambda>d. True) example_store (Some 0) = Returns st"
      "FromGRPCStatus empty_heap (Some st) = (p, h')" "deref h' p = Returns dv"
      "Service dv = Service ?e1" "Code dv = Code ?e1" "Message dv = Message ?e1"
      "table h' (Fields dv) = table example_store (Fields ?e1)"
      "grpcCode dv = (if grpcCode ?e1 = 0 then Unknown else grpcCode ?e1)"
      by auto
    moreover from this(7) have "range_of h' (Fields dv) = [(''id'', ''456'')]"
      using example_store_range(1) by (simp add: range_of_def)
    ultimately show ?thesis
      by (intro exI [of _ st] exI [of _ p] exI [of _ h'] exI [of _ dv]) simp
  qed
  have second: "\<exists>st p h' dv. GRPCStatus (\<lambda>d. True) ?h0 (Some 0) = Returns st \<and>
      FromGRPCStatus empty_heap (Some st) = (p, h') \<and> deref h' p = Returns dv \<and>
      Service dv = ''svc'' \<and> Code dv = ''C1'' \<and> Message dv = ''msg'' \<and>
      range_of h' (Fields dv) = [] \<and> grpcCode dv = Unknown"
  proof -
    from roundtrip [of ?h0 "Some 0" ?e0 "\<lambda>d. True" empty_heap] d0
    obtain st p h' dv where "GRPCStatus (\<lambda>d. True) ?h0 (Some 0) = Returns st"
      "FromGRPCStatus empty_heap (Some st) = (p, h')" "deref h' p = Returns dv"
      "Service dv = Service ?e0" "Code dv = Code ?e0" "Message dv = Message ?e0"
      "table h' (Fields dv) = table ?h0 (Fields ?e0)"
      "grpcCode dv = (if grpcCode ?e0 = 0 then Unknown else grpcCode ?e0)"
      by auto
    moreover from this(7) have "range_of h' (Fields dv) = []"
      using r0 by (simp add: range_of_def)
    ultimately show ?thesis
      by (intro exI [of _ st] exI [of _ p] exI [of _ h'] exI [of _ dv])
         (simp add: zero_AppError_def)
  qed
  from example_store_deref first d0 second show ?thesis
    by blast
qed

lemma lookup_fold_update_distinct:
  "distinct (map fst es) \<Longrightarrow>
   DAList.lookup (fold (\<lambda>(k, v). DAList.update k v) es t) k =
     (case map_of es k of Some v \<Rightarrow> Some v | None \<Rightarrow> DAList.lookup t k)"
proof (induction es arbitrary: t)
  case Nil
  then show ?case by simp
next
  case (Cons kv es)
  obtain k' v' where kv: "kv = (k', v')" by (cases kv)
  from Cons.prems have "map_of es k' = None"
    by (auto simp: kv map_of_eq_None_iff)
  with Cons show ?case
    by (auto simp: kv DAList.lookup_update split: option.splits)
qed

lemma mapaccess_range_of: "mapaccess h m k = map_of (range_of h m) k"
  by (simp add: mapaccess_def range_of_def DAList.lookup.rep_eq)

lemma len_allocated: "len h m \<noteq> 0 \<Longrightarrow> allocated h m"
  by (auto simp: len_def table_def allocated_def DAList.empty.rep_eq split: option.splits if_splits)

lemma assign_all_new_eq:
  "tables h = ts @ [t] \<Longrightarrow>
   assign_all h (length ts) es = h\<lparr>tables := ts @ [fold (\<lambda>(k, v). DAList.update k v) es t]\<rparr>"
  by (induction h "length ts" es arbitrary: t rule: assign_all.induct) (simp_all add: mapassign_def)

lemma AddFields_eq:
  assumes "deref h e = Returns ev" and "allocated h (Fields ev)" and "len h f \<noteq> 0"
  shows "AddFields h e f =
           Returns (Some (length (structs h)),
             h\<lparr>structs := structs h @ [ev\<lparr>Fields := Some (length (tables h))\<rparr>],
               tables := tables h @
                 [fold (\<lambda>(k, v). DAList.update k v) (range_of h f)
                    (fold (\<lambda>(k, v). DAList.update k v) (range_of h (Fields ev)) DAList.empty)]\<rparr>)"
proof -
  let ?n = "length (tables h)"
  let ?upd = "\<lambda>(k, v). DAList.update k v"
  let ?h1 = "h\<lparr>tables := tables h @ [DAList.empty]\<rparr>"
  let ?t1 = "fold ?upd (range_of h (Fields ev)) DAList.empty"
  let ?h2 = "h\<lparr>tables := tables h @ [?t1]\<rparr>"
  have fa: "allocated h f"
    using assms(3) by (rule len_allocated)
  have es1: "range_of ?h1 (Fields ev) = range_of h (Fields ev)"
    using preserved_table [of h ?h1, OF _ assms(2)] by (simp add: range_of_def preserved_iff)
  have h2: "assign_all ?h1 ?n (range_of h (Fields ev)) = ?h2"
    using assign_all_new_eq [of ?h1 "tables h" DAList.empty] by simp
  have es2: "range_of ?h2 f = range_of h f"
    using preserved_table [of h ?h2, OF _ fa] by (simp add: range_of_def preserved_iff)
  have h3: "assign_all ?h2 ?n (range_of h f) = h\<lparr>tables := tables h @ [fold ?upd (range_of h f) ?t1]\<rparr>"
    using assign_all_new_eq [of ?h2 "tables h" ?t1] by simp
  show ?thesis
    using assms(1,3) by (simp add: AddFields_def make_map_def Let_def es1 h2 es2 h3 new_struct_eq)
qed

text \<open>
  C9. \<^verbatim>\<open>e.AddFields(f)\<close> with a non-empty \<^verbatim>\<open>f\<close> returns a pointer other than
  \<^verbatim>\<open>e\<close>. Every struct and table of the store is as before the call: \<^verbatim>\<open>e\<close> still
  points to the same struct, and the tables of \<^verbatim>\<open>e.Fields\<close> and of \<^verbatim>\<open>f\<close> are
  unchanged. The new struct is a copy of \<^verbatim>\<open>*e\<close> except for its map, which is a
  table that did not exist before and holds, under every key, the value of \<^verbatim>\<open>f\<close> if
  \<^verbatim>\<open>f\<close> has the key and the value of \<^verbatim>\<open>e.Fields\<close> otherwise.
\<close>

theorem AddFields_fresh_union:
  assumes "deref h e = Returns ev" and "allocated h (Fields ev)" and "len h f \<noteq> 0"
  shows "\<exists>p h'. AddFields h e f = Returns (p, h') \<and> p \<noteq> e \<and> preserved h h' \<and>
           deref h' e = Returns ev \<and> table h' (Fields ev) = table h (Fields ev) \<and>
           table h' f = table h f \<and>
           deref h' p = Returns (ev\<lparr>Fields := Some (length (tables h))\<rparr>) \<and>
           \<not> allocated h (Some (length (tables h))) \<and>
           (\<forall>k. mapaccess h' (Some (length (tables h))) k =
                  (case mapaccess h f k of
                     Some v \<Rightarrow> Some v
                   | None \<Rightarrow> mapaccess h (Fields ev) k))"
proof -
  let ?n = "length (tables h)"
  let ?upd = "\<lambda>(k, v). DAList.update k v"
  let ?t = "fold ?upd (range_of h f) (fold ?upd (range_of h (Fields ev)) DAList.empty)"
  let ?p = "Some (length (structs h))"
  let ?h' = "h\<lparr>structs := structs h @ [ev\<lparr>Fields := Some ?n\<rparr>], tables := tables h @ [?t]\<rparr>"
  have call: "AddFields h e f = Returns (?p, ?h')"
    using assms by (rule AddFields_eq)
  have fa: "allocated h f"
    using assms(3) by (rule len_allocated)
  have pres: "preserved h ?h'"
    by (simp add: preserved_iff)
  have ne: "?p \<noteq> e"
    using assms(1) by (auto simp: deref_def split: option.splits if_splits)
  have new: "deref ?h' ?p = Returns (ev\<lparr>Fields := Some ?n\<rparr>)"
    by (simp add: deref_def)
  have tn: "table ?h' (Some ?n) = ?t"
    by (simp add: table_def)
  have d1: "distinct (map fst (range_of h (Fields ev)))"
    and d2: "distinct (map fst (range_of h f))"
    by (simp_all add: range_of_def)
  have look: "mapaccess ?h' (Some ?n) k =
               (case mapaccess h f k of Some v \<Rightarrow> Some v | None \<Rightarrow> mapaccess h (Fields ev) k)" for k
  proof -
    have "mapaccess ?h' (Some ?n) k = DAList.lookup ?t k"
      unfolding mapaccess_def tn ..
    also have "\<dots> = (case map_of (range_of h f) k of
                        Some v \<Rightarrow> Some v
                      | None \<Rightarrow> map_of (range_of h (Fields ev)) k)"
      by (simp add: lookup_fold_update_distinct d1 d2 split: option.splits)
    finally show ?thesis
      by (simp only: mapaccess_range_of)
  qed
  from call ne pres new look
    preserved_deref [OF pres assms(1)] preserved_table [OF pres assms(2)]
    preserved_table [OF pres fa]
  show ?thesis
    by (intro exI [of _ ?p] exI [of _ ?h']) (simp add: allocated_def)
qed

theorem AddFields_fresh_union_witness:
  "deref example_store (Some 0) =
     Returns (zero_AppError\<lparr>Service := ''user-service'', Code := ''US-404'',
       Message := ''user not found'', Fields := Some 0,
       cause := Foreign ''connection refused'' NilError, grpcCode := 5\<rparr>) \<and>
   allocated example_store (Some 0) \<and>
   len example_store (Some 1) \<noteq> 0 \<and>
   (\<exists>p h'. AddFields example_store (Some 0) (Some 1) = Returns (p, h') \<and> p \<noteq> Some 0 \<and>
      deref h' (Some 0) = deref example_store (Some 0) \<and>
      range_of h' (Some 0) = [(''id'', ''456'')] \<and>
      range_of h' (Some 1) = [(''id'', ''789''), (''attempt'', ''1'')] \<and>
      deref h' p =
        Returns (zero_AppError\<lparr>Service := ''user-service'', Code := ''US-404'',
          Message := ''user not found'', Fields := Some 2,
          cause := Foreign ''connection refused'' NilError, grpcCode := 5\<rparr>) \<and>
      mapaccess h' (Some 2) ''id'' = Some ''789'' \<and>
      mapaccess h' (Some 2) ''attempt'' = Some ''1'')"
proof -
  let ?e1 = "zero_AppError\<lparr>Service := ''user-service'', Code := ''US-404'',
       Message := ''user not found'', Fields := Some 0,
       cause := Foreign ''connection refused'' NilError, grpcCode := 5\<rparr>"
  have a: "allocated example_store (Fields ?e1)"
    by (simp add: allocated_def example_store_def)
  have l: "len example_store (Some 1) \<noteq> 0"
    using example_store_range(2) by (simp add: len_def range_of_def)
  have n: "length (tables example_store) = 2"
    by (simp add: example_store_def)
  have m: "mapaccess example_store (Some 1) ''id'' = Some ''789''"
    "mapaccess example_store (Some 1) ''attempt'' = Some ''1''"
    unfolding mapaccess_range_of example_store_range by simp_all
  from AddFields_fresh_union [OF example_store_deref a l] obtain p h'
    where r: "AddFields example_store (Some 0) (Some 1) = Returns (p, h')" "p \<noteq> Some 0"
      "deref h' (Some 0) = Returns ?e1"
      "table h' (Fields ?e1) = table example_store (Fields ?e1)"
      "table h' (Some 1) = table example_store (Some 1)"
      "deref h' p = Returns (?e1\<lparr>Fields := Some (length (tables example_store))\<rparr>)"
      "\<And>k. mapaccess h' (Some (length (tables example_store))) k =
              (case mapaccess example_store (Some 1) k of
                 Some v \<Rightarrow> Some v
               | None \<Rightarrow> mapaccess example_store (Fields ?e1) k)"
    by blast
  have f: "Fields ?e1 = Some 0"
    by simp
  have t0: "range_of h' (Some 0) = [(''id'', ''456'')]"
    unfolding range_of_def r(4) [unfolded f]
    by (rule example_store_range(1) [unfolded range_of_def])
  have t1: "range_of h' (Some 1) = [(''id'', ''789''), (''attempt'', ''1'')]"
    unfolding range_of_def r(5)
    by (rule example_store_range(2) [unfolded range_of_def])
  from r(6) have new: "deref h' p =
        Returns (zero_AppError\<lparr>Service := ''user-service'', Code := ''US-404'',
          Message := ''user not found'', Fields := Some 2,
          cause := Foreign ''connection refused'' NilError, grpcCode := 5\<rparr>)"
    by (simp add: n zero_AppError_def)
  from r(7) [of "''id''"] r(7) [of "''attempt''"]
  have look: "mapaccess h' (Some 2) ''id'' = Some ''789''"
    "mapaccess h' (Some 2) ''attempt'' = Some ''1''"
    by (simp_all add: n m del: One_nat_def)
  from a have a': "allocated example_store (Some 0)"
    by simp
  from example_store_deref a' l r(1,2,3) t0 t1 new look show ?thesis
    by (simp del: One_nat_def)
qed

lemma WithField_eq:
  assumes "deref h e = Returns ev" and "allocated h (Fields ev)"
  shows "WithField h e k v =
           Returns (Some (length (structs h)),
             h\<lparr>structs := structs h @ [ev\<lparr>Fields := Some (Suc (length (tables h)))\<rparr>],
               tables := tables h @
                 [DAList.update k v DAList.empty,
                  DAList.update k v
                    (fold (\<lambda>(k, v). DAList.update k v) (range_of h (Fields ev)) DAList.empty)]\<rparr>)"
proof -
  let ?lit = "DAList.update k v DAList.empty"
  let ?h2 = "h\<lparr>tables := tables h @ [?lit]\<rparr>"
  have w: "WithField h e k v = AddFields ?h2 e (Some (length (tables h)))"
    by (simp add: WithField_def make_map_def mapassign_def)
  have p: "preserved h ?h2"
    by (simp add: preserved_iff)
  have d: "deref ?h2 e = Returns ev"
    using p assms(1) by (rule preserved_deref)
  have a: "allocated ?h2 (Fields ev)"
    using assms(2) by (auto simp: allocated_def split: option.splits)
  have r: "range_of ?h2 (Some (length (tables h))) = [(k, v)]"
    by (simp add: range_of_def table_def DAList.update.rep_eq DAList.empty.rep_eq)
  then have l: "len ?h2 (Some (length (tables h))) \<noteq> 0"
    by (simp add: len_def range_of_def)
  have rf: "range_of ?h2 (Fields ev) = range_of h (Fields ev)"
    using preserved_table [OF p assms(2)] by (simp add: range_of_def)
  show ?thesis
    unfolding w AddFields_eq [OF d a l] r rf by simp
qed

lemma fields_match_iff:
  "fields_match h m es \<longleftrightarrow> (\<forall>(key, val) \<in> set es. mapaccess h m key = Some val)"
  by (induction h m es rule: fields_match.induct) (auto split: option.splits)

lemma Is_subset:
  assumes "deref h r = Returns rv" and "deref h c = Returns cv"
  shows "Is h r (AppErrorPtr c) =
           Returns (Service rv = Service cv \<and> Code rv = Code cv \<and>
             (\<forall>key val. mapaccess h (Fields cv) key = Some val \<longrightarrow>
                         mapaccess h (Fields rv) key = Some val))"
proof -
  have "distinct (map fst (range_of h (Fields cv)))"
    by (simp add: range_of_def)
  then have "(key, val) \<in> set (range_of h (Fields cv)) \<longleftrightarrow> mapaccess h (Fields cv) key = Some val"
    for key val
    by (simp add: mapaccess_range_of)
  then have "fields_match h (Fields rv) (range_of h (Fields cv)) \<longleftrightarrow>
               (\<forall>key val. mapaccess h (Fields cv) key = Some val \<longrightarrow>
                           mapaccess h (Fields rv) key = Some val)"
    unfolding fields_match_iff by fastforce
  with assms show ?thesis
    by (auto simp: Is_def)
qed


lemma WithField_tables:
  assumes "deref h t = Returns tv" and "allocated h (Fields tv)"
  shows "\<exists>e h'. WithField h t k v = Returns (e, h') \<and> deref h' t = Returns tv \<and>
           deref h' e = Returns (tv\<lparr>Fields := Some (Suc (length (tables h)))\<rparr>) \<and>
           (\<forall>key. mapaccess h' (Fields tv) key = mapaccess h (Fields tv) key) \<and>
           (\<forall>key. mapaccess h' (Some (Suc (length (tables h)))) key =
                   (if key = k then Some v else mapaccess h (Fields tv) key))"
proof -
  let ?upd = "\<lambda>(k, v). DAList.update k v"
  let ?new = "DAList.update k v (fold ?upd (range_of h (Fields tv)) DAList.empty)"
  let ?h' = "h\<lparr>structs := structs h @ [tv\<lparr>Fields := Some (Suc (length (tables h)))\<rparr>],
               tables := tables h @ [DAList.update k v DAList.empty, ?new]\<rparr>"
  have w: "WithField h t k v = Returns (Some (length (structs h)), ?h')"
    using assms by (rule WithField_eq)
  have p: "preserved h ?h'"
    by (simp add: preserved_iff)
  have old: "deref ?h' t = Returns tv"
    using p assms(1) by (rule preserved_deref)
  have new: "deref ?h' (Some (length (structs h))) =
               Returns (tv\<lparr>Fields := Some (Suc (length (tables h)))\<rparr>)"
    by (simp add: deref_def)
  have m1: "mapaccess ?h' (Fields tv) key = mapaccess h (Fields tv) key" for key
    using preserved_table [OF p assms(2)] by (simp add: mapaccess_def)
  have tn: "table ?h' (Some (Suc (length (tables h)))) = ?new"
    by (simp add: table_def nth_append)
  have fold_lookup: "DAList.lookup (fold ?upd (range_of h (Fields tv)) DAList.empty) key =
          map_of (range_of h (Fields tv)) key" for key
    by (simp add: lookup_fold_update_distinct range_of_def split: option.splits)
  have m2: "mapaccess ?h' (Some (Suc (length (tables h)))) key =
               (if key = k then Some v else mapaccess h (Fields tv) key)" for key
  proof -
    have "mapaccess ?h' (Some (Suc (length (tables h)))) key = DAList.lookup ?new key"
      by (simp only: mapaccess_def tn)
    also have "\<dots> = (if key = k then Some v else map_of (range_of h (Fields tv)) key)"
      by (auto simp: DAList.lookup_update fold_lookup)
    also have "\<dots> = (if key = k then Some v else mapaccess h (Fields tv) key)"
      by (simp only: mapaccess_range_of)
    finally show ?thesis .
  qed
  from w old new m1 m2 show ?thesis
    by blast
qed

text \<open>
  C3 (amended). \<^verbatim>\<open>r.Is(c)\<close> on two structs is true exactly when service and code
  agree and every field of the argument \<^verbatim>\<open>c\<close> is a field of the receiver \<^verbatim>\<open>r\<close> with
  the same value. So for \<^verbatim>\<open>e := template.WithField(k, v)\<close> the call
  \<^verbatim>\<open>e.Is(template)\<close> is true exactly when the template does not hold \<^verbatim>\<open>k\<close> with
  another value, and the call \<^verbatim>\<open>template.Is(e)\<close> is true exactly when the template
  already holds \<^verbatim>\<open>k\<close> with the value \<^verbatim>\<open>v\<close>.
\<close>

theorem Is_subset_after_WithField:
  "(deref h r = Returns rv \<and> deref h c = Returns cv \<longrightarrow>
      Is h r (AppErrorPtr c) =
        Returns (Service rv = Service cv \<and> Code rv = Code cv \<and>
          (\<forall>key val. mapaccess h (Fields cv) key = Some val \<longrightarrow>
                      mapaccess h (Fields rv) key = Some val))) \<and>
   (deref h t = Returns tv \<and> allocated h (Fields tv) \<longrightarrow>
      enriched_Is_template h t k v =
        Returns (mapaccess h (Fields tv) k = None \<or> mapaccess h (Fields tv) k = Some v) \<and>
      template_Is_enriched h t k v = Returns (mapaccess h (Fields tv) k = Some v))"
proof (intro conjI impI)
  assume "deref h r = Returns rv \<and> deref h c = Returns cv"
  then show "Is h r (AppErrorPtr c) =
        Returns (Service rv = Service cv \<and> Code rv = Code cv \<and>
          (\<forall>key val. mapaccess h (Fields cv) key = Some val \<longrightarrow>
                      mapaccess h (Fields rv) key = Some val))"
    by (simp add: Is_subset)
next
  assume a: "deref h t = Returns tv \<and> allocated h (Fields tv)"
  let ?n = "Suc (length (tables h))"
  from a obtain e h' where w: "WithField h t k v = Returns (e, h')"
    and old: "deref h' t = Returns tv"
    and new: "deref h' e = Returns (tv\<lparr>Fields := Some ?n\<rparr>)"
    and m1: "\<And>key. mapaccess h' (Fields tv) key = mapaccess h (Fields tv) key"
    and m2: "\<And>key. mapaccess h' (Some ?n) key =
                      (if key = k then Some v else mapaccess h (Fields tv) key)"
    using WithField_tables [of h t tv k v] by blast
  have "(\<forall>val. mapaccess h (Fields tv) k = Some val \<longrightarrow> v = val) \<longleftrightarrow>
          mapaccess h (Fields tv) k = None \<or> mapaccess h (Fields tv) k = Some v"
    by (cases "mapaccess h (Fields tv) k") auto
  then have "Is h' e (AppErrorPtr t) =
          Returns (mapaccess h (Fields tv) k = None \<or> mapaccess h (Fields tv) k = Some v)"
    unfolding Is_subset [OF new old] by (auto simp: m1 m2)
  with w show "enriched_Is_template h t k v =
        Returns (mapaccess h (Fields tv) k = None \<or> mapaccess h (Fields tv) k = Some v)"
    by (simp add: enriched_Is_template_def)
  have "Is h' t (AppErrorPtr e) = Returns (mapaccess h (Fields tv) k = Some v)"
    unfolding Is_subset [OF old new] by (auto simp: m1 m2)
  with w show "template_Is_enriched h t k v = Returns (mapaccess h (Fields tv) k = Some v)"
    by (simp add: template_Is_enriched_def)
qed

theorem Is_subset_after_WithField_witness:
  "deref (snd (New empty_heap ''svc'' ''C1'' ''msg'')) (Some 0) =
     Returns (zero_AppError\<lparr>Service := ''svc'', Code := ''C1'', Message := ''msg''\<rparr>) \<and>
   allocated (snd (New empty_heap ''svc'' ''C1'' ''msg'')) None \<and>
   Is (snd (New empty_heap ''svc'' ''C1'' ''msg'')) (Some 0) (AppErrorPtr (Some 0)) = Returns True \<and>
   enriched_Is_template (snd (New empty_heap ''svc'' ''C1'' ''msg'')) (Some 0) ''k'' ''v'' =
     Returns True \<and>
   template_Is_enriched (snd (New empty_heap ''svc'' ''C1'' ''msg'')) (Some 0) ''k'' ''v'' =
     Returns False"
proof -
  let ?h = "snd (New empty_heap ''svc'' ''C1'' ''msg'')"
  let ?tv = "zero_AppError\<lparr>Service := ''svc'', Code := ''C1'', Message := ''msg''\<rparr>"
  have d: "deref ?h (Some 0) = Returns ?tv"
    by (simp add: New_def new_struct_eq empty_heap_def deref_def)
  have f: "Fields ?tv = None"
    by (simp add: zero_AppError_def)
  have a: "allocated ?h None"
    by (simp add: allocated_def)
  have m: "mapaccess ?h None k = None" for k
    by (simp add: mapaccess_def table_def)
  from Is_subset_after_WithField [of ?h "Some 0" ?tv "Some 0" ?tv "Some 0" ?tv "''k''" "''v''"]
    d a
  show ?thesis
    by (simp add: f m)
qed

text \<open>
  The claim C3 as stated fails: for \<^verbatim>\<open>template := New("svc", "C1", "msg")\<close> and
  \<^verbatim>\<open>e := template.WithField("k", "v")\<close>, \<^verbatim>\<open>template.Is(e)\<close> is false.
\<close>

theorem template_Is_enriched_counterexample:
  "template_Is_enriched (snd (New empty_heap ''svc'' ''C1'' ''msg'')) (Some 0) ''k'' ''v'' =
     Returns False"
  by (simp add: template_Is_enriched_def New_def new_struct_def empty_heap_def zero_AppError_def
        WithField_def make_map_def mapassign_def AddFields_def len_def range_of_def table_def
        deref_def Is_def mapaccess_def DAList.update.rep_eq DAList.empty.rep_eq
        DAList.lookup.rep_eq)

lemma render_fields_rest:
  "render_fields IsPrint msg False es =
     msg @ concat (map (\<lambda>(k, v). '', '' @ quote IsPrint k @ '':'' @ quote IsPrint v) es)"
  by (induction es arbitrary: msg) auto

lemma render_head_eq:
  "render_head IsPrint h e =
     ''['' @ Service e @ '':'' @ Code e @ ''] '' @ Message e @
     spec_fields_text (quote IsPrint) (range_of h (Fields e))"
  by (cases "range_of h (Fields e)")
     (auto simp: render_head_def spec_fields_text_def len_def range_of_def render_fields_rest)

lemma appendQuoted_plain: "list_all plain s \<Longrightarrow> appendQuoted IsPrint s = s"
proof (induction s)
  case Nil
  then show ?case by simp
next
  case (Cons c s)
  then have c: "(of_char c :: nat) < 0x80" "0x20 \<le> (of_char c :: nat)"
    "(of_char c :: nat) < 0x7F" "(of_char c :: nat) \<noteq> 0x22" "(of_char c :: nat) \<noteq> 0x5C"
    by (auto simp: plain_def)
  then have d: "DecodeRuneInString (c # s) = (of_char c, 1)"
    by (simp add: DecodeRuneInString_def)
  have n: "(of_char c :: nat) \<noteq> RuneError"
    using c(1) by (simp add: RuneError_def)
  have e: "appendEscapedRune IsPrint (of_char c) [c] = [c]"
    using c by (simp add: appendEscapedRune_def is_print_def)
  from Cons show ?case
    by (simp add: d n e)
qed

lemma quote_plain: "list_all plain s \<Longrightarrow> quote IsPrint s = in_double_quotes s"
  by (simp add: quote_def in_double_quotes_def appendQuoted_plain)

lemma spec_fields_text_plain:
  assumes "list_all (\<lambda>(k, v). list_all plain k \<and> list_all plain v) es"
  shows "spec_fields_text (quote IsPrint) es = spec_fields_text in_double_quotes es"
proof (cases es)
  case Nil
  then show ?thesis by (simp add: spec_fields_text_def)
next
  case (Cons kv rest)
  obtain k1 v1 where kv: "kv = (k1, v1)" by (cases kv)
  from assms have first: "list_all plain k1" "list_all plain v1"
    and others: "\<And>k v. (k, v) \<in> set rest \<Longrightarrow> list_all plain k \<and> list_all plain v"
    by (auto simp: Cons kv list_all_iff)
  have "map (\<lambda>(k, v). '', '' @ quote IsPrint k @ '':'' @ quote IsPrint v) rest =
        map (\<lambda>(k, v). '', '' @ in_double_quotes k @ '':'' @ in_double_quotes v) rest"
  proof (rule map_cong [OF refl])
    fix x
    assume x: "x \<in> set rest"
    obtain k v where "x = (k, v)" by (cases x)
    with x others [of k v]
    show "(case x of (k, v) \<Rightarrow> '', '' @ quote IsPrint k @ '':'' @ quote IsPrint v) =
          (case x of (k, v) \<Rightarrow> '', '' @ in_double_quotes k @ '':'' @ in_double_quotes v)"
      by (simp add: quote_plain)
  qed
  then have "concat (map (\<lambda>(k, v). '', '' @ quote IsPrint k @ '':'' @ quote IsPrint v) rest) =
        concat (map (\<lambda>(k, v). '', '' @ in_double_quotes k @ '':'' @ in_double_quotes v) rest)"
    by (rule arg_cong)
  then show ?thesis
    by (simp add: spec_fields_text_def Cons kv quote_plain first)
qed

lemma Error_no_cause:
  "deref h p = Returns e \<Longrightarrow> cause e = NilError \<Longrightarrow>
   Error IsPrint h (AppErrorPtr p) = Some (Returns (render_head IsPrint h e))"
  by (subst Error.simps) simp

lemma Error_with_cause:
  "deref h p = Returns e \<Longrightarrow> cause e \<noteq> NilError \<Longrightarrow>
   Error IsPrint h (cause e) = Some (Returns c) \<Longrightarrow>
   Error IsPrint h (AppErrorPtr p) = Some (Returns (render_head IsPrint h e @ '': '' @ c))"
  by (subst Error.simps) (simp add: append_cause_def)

lemma Error_New:
  "Error IsPrint (snd (New h service code message))
     (AppErrorPtr (fst (New h service code message))) =
     Some (Returns (''['' @ service @ '':'' @ code @ ''] '' @ message))"
proof -
  let ?v = "zero_AppError\<lparr>Service := service, Code := code, Message := message\<rparr>"
  have d: "deref (snd (New h service code message)) (fst (New h service code message)) = Returns ?v"
    unfolding New_def by (rule deref_new_struct)
  have "range_of (snd (New h service code message)) (Fields ?v) = []"
    by (simp add: zero_AppError_def range_of_def table_def DAList.empty.rep_eq)
  then have "render_head IsPrint (snd (New h service code message)) ?v =
          ''['' @ service @ '':'' @ code @ ''] '' @ message"
    by (simp add: render_head_eq spec_fields_text_def)
  with Error_no_cause [OF d] show ?thesis
    by (simp add: zero_AppError_def)
qed

lemma Error_New_WithField_eq:
  "Error_New_WithField IsPrint h service code message k v =
     Some (Returns (''['' @ service @ '':'' @ code @ ''] '' @ message @
       '' [fields:{'' @ quote IsPrint k @ '':'' @ quote IsPrint v @ ''}]''))"
proof -
  let ?v = "zero_AppError\<lparr>Service := service, Code := code, Message := message\<rparr>"
  let ?h1 = "h\<lparr>structs := structs h @ [?v]\<rparr>"
  let ?t = "Some (length (structs h))"
  let ?e = "?v\<lparr>Fields := Some (Suc (length (tables h)))\<rparr>"
  let ?h2 = "?h1\<lparr>structs := structs ?h1 @ [?e],
               tables := tables ?h1 @ [DAList.update k v DAList.empty,
                 DAList.update k v
                   (fold (\<lambda>(k, v). DAList.update k v) (range_of ?h1 (Fields ?v)) DAList.empty)]\<rparr>"
  have n: "New h service code message = (?t, ?h1)"
    by (simp add: New_def new_struct_eq)
  have d: "deref ?h1 ?t = Returns ?v"
    by (simp add: deref_def)
  have a: "allocated ?h1 (Fields ?v)"
    by (simp add: allocated_def zero_AppError_def)
  have w: "WithField ?h1 ?t k v = Returns (Some (length (structs ?h1)), ?h2)"
    using WithField_eq [OF d a, of k v] by simp
  have r0: "range_of ?h1 (Fields ?v) = []"
    by (simp add: zero_AppError_def range_of_def table_def DAList.empty.rep_eq)
  have de: "deref ?h2 (Some (length (structs ?h1))) = Returns ?e"
    by (simp add: deref_def nth_append)
  have r: "range_of ?h2 (Fields ?e) = [(k, v)]"
    unfolding r0
    by (simp add: range_of_def table_def nth_append DAList.update.rep_eq DAList.empty.rep_eq)
  have c: "cause ?e = NilError"
    by (simp add: zero_AppError_def)
  have "Error IsPrint ?h2 (AppErrorPtr (Some (length (structs ?h1)))) =
          Some (Returns (render_head IsPrint ?h2 ?e))"
    using de c by (rule Error_no_cause)
  also have "render_head IsPrint ?h2 ?e = ''['' @ service @ '':'' @ code @ ''] '' @ message @
       '' [fields:{'' @ quote IsPrint k @ '':'' @ quote IsPrint v @ ''}]''"
    unfolding render_head_eq r by (simp add: spec_fields_text_def zero_AppError_def)
  finally show ?thesis
    unfolding Error_New_WithField_def n using w by simp
qed

subsection \<open>What \<^verbatim>\<open>%q\<close> writes\<close>

lemmas quote_run =
  quote_def DecodeRuneInString_def RuneError_def lowerhex_def appendEscapedRune_def is_print_def

lemma quote_id: \<open>quote IsPrint ''id'' = ''"id"''\<close>
  and quote_456: \<open>quote IsPrint ''456'' = ''"456"''\<close>
  by (simp_all add: quote_plain plain_def in_double_quotes_def)

lemma quote_ascii_escapes:
  "quote IsPrint
     [CHR ''a'', CHR 0x22, CHR 0x5C, CHR 0x07, CHR 0x08, CHR 0x0C, CHR 0x0A, CHR 0x0D,
      CHR 0x09, CHR 0x0B, CHR 0x01, CHR 0x7F] =
   [CHR 0x22, CHR ''a'', CHR 0x5C, CHR 0x22, CHR 0x5C, CHR 0x5C, CHR 0x5C, CHR ''a'',
    CHR 0x5C, CHR ''b'', CHR 0x5C, CHR ''f'', CHR 0x5C, CHR ''n'', CHR 0x5C, CHR ''r'',
    CHR 0x5C, CHR ''t'', CHR 0x5C, CHR ''v'', CHR 0x5C, CHR ''x'', CHR ''0'', CHR ''1'',
    CHR 0x5C, CHR ''x'', CHR ''7'', CHR ''f'', CHR 0x22]"
  by (simp add: quote_run)

lemma quote_invalid_utf8:
  "quote IsPrint [CHR 0xFF] = [CHR 0x22, CHR 0x5C, CHR ''x'', CHR ''f'', CHR ''f'', CHR 0x22]"
  "quote IsPrint [CHR 0xC3] = [CHR 0x22, CHR 0x5C, CHR ''x'', CHR ''c'', CHR ''3'', CHR 0x22]"
  "quote IsPrint [CHR 0xC0, CHR 0x80] =
     [CHR 0x22, CHR 0x5C, CHR ''x'', CHR ''c'', CHR ''0'', CHR 0x5C, CHR ''x'', CHR ''8'',
      CHR ''0'', CHR 0x22]"
  "quote IsPrint [CHR 0xED, CHR 0xA0, CHR 0x80] =
     [CHR 0x22, CHR 0x5C, CHR ''x'', CHR ''e'', CHR ''d'', CHR 0x5C, CHR ''x'', CHR ''a'',
      CHR ''0'', CHR 0x5C, CHR ''x'', CHR ''8'', CHR ''0'', CHR 0x22]"
  by (simp_all add: quote_run)

lemma quote_printable_rune:
  "IsPrint 0xE9 \<Longrightarrow> quote IsPrint [CHR 0xC3, CHR 0xA9] = [CHR 0x22, CHR 0xC3, CHR 0xA9, CHR 0x22]"
  by (simp add: quote_run)

lemma quote_unprintable_rune:
  "\<not> IsPrint 0x200B \<Longrightarrow>
   quote IsPrint [CHR 0xE2, CHR 0x80, CHR 0x8B] =
     [CHR 0x22, CHR 0x5C, CHR ''u'', CHR ''2'', CHR ''0'', CHR ''0'', CHR ''b'', CHR 0x22]"
  "\<not> IsPrint 0xE0001 \<Longrightarrow>
   quote IsPrint [CHR 0xF3, CHR 0xA0, CHR 0x80, CHR 0x81] =
     [CHR 0x22, CHR 0x5C, CHR ''U'', CHR ''0'', CHR ''0'', CHR ''0'', CHR ''e'', CHR ''0'',
      CHR ''0'', CHR ''0'', CHR ''1'', CHR 0x22]"
  by (simp_all add: quote_run)

text \<open>
  C6. \<^verbatim>\<open>Error\<close> on a struct with no field and no cause gives
  \<^verbatim>\<open>[service:code] message\<close>. With fields it appends the text of the fields, every
  key and value written by \<^verbatim>\<open>%q\<close>, and with a cause whose own \<^verbatim>\<open>Error\<close> returns
  \<open>c\<close> it appends a colon, a space and \<open>c\<close>. When the keys and values are of
  printable ASCII without double quote or backslash, \<^verbatim>\<open>%q\<close> writes them as they
  are between double quotes. Otherwise it escapes: the double quote, the backslash and
  the control characters in Go syntax, a byte that is no well-formed UTF-8 as
  \<^verbatim>\<open>\x\<close> and two digits, a rune the library's tables call printable as it is, and
  any other rune as \<^verbatim>\<open>\u\<close> or \<^verbatim>\<open>\U\<close> and its digits.
  \<^verbatim>\<open>New("svc", "C1", "msg")\<close> renders as \<^verbatim>\<open>[svc:C1] msg\<close> and
  \<^verbatim>\<open>New("user-service", "US-404", "user not found").WithField("id", "456")\<close> as
  \<^verbatim>\<open>[user-service:US-404] user not found [fields:{"id":"456"}]\<close>, in whatever store
  the values are built; a key \<^verbatim>\<open>k"\<close> with the value of the one byte 0xFF renders
  as \<^verbatim>\<open>{"k\"":"\xff"}\<close>.
\<close>

theorem Error_format:
  \<open>(deref h p = Returns e \<and> len h (Fields e) = 0 \<and> cause e = NilError \<longrightarrow>
      Error IsPrint h (AppErrorPtr p) =
        Some (Returns (''['' @ Service e @ '':'' @ Code e @ ''] '' @ Message e))) \<and>
   (deref h p = Returns e \<and> cause e = NilError \<longrightarrow>
      Error IsPrint h (AppErrorPtr p) =
        Some (Returns (''['' @ Service e @ '':'' @ Code e @ ''] '' @ Message e @
          spec_fields_text (quote IsPrint) (range_of h (Fields e))))) \<and>
   (deref h p = Returns e \<and> cause e \<noteq> NilError \<and>
    Error IsPrint h (cause e) = Some (Returns c) \<longrightarrow>
      Error IsPrint h (AppErrorPtr p) =
        Some (Returns (''['' @ Service e @ '':'' @ Code e @ ''] '' @ Message e @
          spec_fields_text (quote IsPrint) (range_of h (Fields e)) @ '': '' @ c))) \<and>
   (deref h p = Returns e \<and> cause e = NilError \<and>
    list_all (\<lambda>(k, v). list_all plain k \<and> list_all plain v) (range_of h (Fields e)) \<longrightarrow>
      Error IsPrint h (AppErrorPtr p) =
        Some (Returns (''['' @ Service e @ '':'' @ Code e @ ''] '' @ Message e @
          spec_fields_text in_double_quotes (range_of h (Fields e))))) \<and>
   (deref h p = Returns e \<and> cause e \<noteq> NilError \<and>
    Error IsPrint h (cause e) = Some (Returns c) \<and>
    list_all (\<lambda>(k, v). list_all plain k \<and> list_all plain v) (range_of h (Fields e)) \<longrightarrow>
      Error IsPrint h (AppErrorPtr p) =
        Some (Returns (''['' @ Service e @ '':'' @ Code e @ ''] '' @ Message e @
          spec_fields_text in_double_quotes (range_of h (Fields e)) @ '': '' @ c))) \<and>
   (list_all plain s \<longrightarrow> quote IsPrint s = CHR 0x22 # s @ [CHR 0x22]) \<and>
   quote IsPrint
     [CHR ''a'', CHR 0x22, CHR 0x5C, CHR 0x07, CHR 0x08, CHR 0x0C, CHR 0x0A, CHR 0x0D,
      CHR 0x09, CHR 0x0B, CHR 0x01, CHR 0x7F] =
     [CHR 0x22, CHR ''a'', CHR 0x5C, CHR 0x22, CHR 0x5C, CHR 0x5C, CHR 0x5C, CHR ''a'',
      CHR 0x5C, CHR ''b'', CHR 0x5C, CHR ''f'', CHR 0x5C, CHR ''n'', CHR 0x5C, CHR ''r'',
      CHR 0x5C, CHR ''t'', CHR 0x5C, CHR ''v'', CHR 0x5C, CHR ''x'', CHR ''0'', CHR ''1'',
      CHR 0x5C, CHR ''x'', CHR ''7'', CHR ''f'', CHR 0x22] \<and>
   quote IsPrint [CHR 0xFF] =
     [CHR 0x22, CHR 0x5C, CHR ''x'', CHR ''f'', CHR ''f'', CHR 0x22] \<and>
   quote IsPrint [CHR 0xC3] =
     [CHR 0x22, CHR 0x5C, CHR ''x'', CHR ''c'', CHR ''3'', CHR 0x22] \<and>
   quote IsPrint [CHR 0xC0, CHR 0x80] =
     [CHR 0x22, CHR 0x5C, CHR ''x'', CHR ''c'', CHR ''0'', CHR 0x5C, CHR ''x'', CHR ''8'',
      CHR ''0'', CHR 0x22] \<and>
   quote IsPrint [CHR 0xED, CHR 0xA0, CHR 0x80] =
     [CHR 0x22, CHR 0x5C, CHR ''x'', CHR ''e'', CHR ''d'', CHR 0x5C, CHR ''x'', CHR ''a'',
      CHR ''0'', CHR 0x5C, CHR ''x'', CHR ''8'', CHR ''0'', CHR 0x22] \<and>
   (IsPrint 0xE9 \<longrightarrow>
      quote IsPrint [CHR 0xC3, CHR 0xA9] = [CHR 0x22, CHR 0xC3, CHR 0xA9, CHR 0x22]) \<and>
   (\<not> IsPrint 0x200B \<longrightarrow>
      quote IsPrint [CHR 0xE2, CHR 0x80, CHR 0x8B] =
        [CHR 0x22, CHR 0x5C, CHR ''u'', CHR ''2'', CHR ''0'', CHR ''0'', CHR ''b'', CHR 0x22]) \<and>
   (\<not> IsPrint 0xE0001 \<longrightarrow>
      quote IsPrint [CHR 0xF3, CHR 0xA0, CHR 0x80, CHR 0x81] =
        [CHR 0x22, CHR 0x5C, CHR ''U'', CHR ''0'', CHR ''0'', CHR ''0'', CHR ''e'', CHR ''0'',
         CHR ''0'', CHR ''0'', CHR ''1'', CHR 0x22]) \<and>
   Error IsPrint (snd (New h ''svc'' ''C1'' ''msg''))
     (AppErrorPtr (fst (New h ''svc'' ''C1'' ''msg''))) =
     Some (Returns ''[svc:C1] msg'') \<and>
   Error_New_WithField IsPrint h ''user-service'' ''US-404'' ''user not found'' ''id'' ''456'' =
     Some (Returns ''[user-service:US-404] user not found [fields:{"id":"456"}]'') \<and>
   Error_New_WithField IsPrint h ''s'' ''c'' ''m'' [CHR ''k'', CHR 0x22] [CHR 0xFF] =
     Some (Returns (''[s:c] m [fields:{"k'' @ [CHR 0x5C] @ ''"":"'' @ [CHR 0x5C] @ ''xff"}]''))\<close>
proof (intro conjI impI)
  assume a: "deref h p = Returns e \<and> len h (Fields e) = 0 \<and> cause e = NilError"
  then have "range_of h (Fields e) = []"
    by (simp add: len_def range_of_def)
  with a show "Error IsPrint h (AppErrorPtr p) =
        Some (Returns (''['' @ Service e @ '':'' @ Code e @ ''] '' @ Message e))"
    by (simp add: Error_no_cause render_head_eq spec_fields_text_def)
next
  assume "deref h p = Returns e \<and> cause e = NilError"
  then show "Error IsPrint h (AppErrorPtr p) =
        Some (Returns (''['' @ Service e @ '':'' @ Code e @ ''] '' @ Message e @
          spec_fields_text (quote IsPrint) (range_of h (Fields e))))"
    by (simp add: Error_no_cause render_head_eq)
next
  assume "deref h p = Returns e \<and> cause e \<noteq> NilError \<and>
    Error IsPrint h (cause e) = Some (Returns c)"
  then show "Error IsPrint h (AppErrorPtr p) =
        Some (Returns (''['' @ Service e @ '':'' @ Code e @ ''] '' @ Message e @
          spec_fields_text (quote IsPrint) (range_of h (Fields e)) @ '': '' @ c))"
    by (simp add: Error_with_cause render_head_eq)
next
  assume "deref h p = Returns e \<and> cause e = NilError \<and>
    list_all (\<lambda>(k, v). list_all plain k \<and> list_all plain v) (range_of h (Fields e))"
  then show "Error IsPrint h (AppErrorPtr p) =
        Some (Returns (''['' @ Service e @ '':'' @ Code e @ ''] '' @ Message e @
          spec_fields_text in_double_quotes (range_of h (Fields e))))"
    by (simp add: Error_no_cause render_head_eq spec_fields_text_plain)
next
  assume "deref h p = Returns e \<and> cause e \<noteq> NilError \<and>
    Error IsPrint h (cause e) = Some (Returns c) \<and>
    list_all (\<lambda>(k, v). list_all plain k \<and> list_all plain v) (range_of h (Fields e))"
  then show "Error IsPrint h (AppErrorPtr p) =
        Some (Returns (''['' @ Service e @ '':'' @ Code e @ ''] '' @ Message e @
          spec_fields_text in_double_quotes (range_of h (Fields e)) @ '': '' @ c))"
    by (simp add: Error_with_cause render_head_eq spec_fields_text_plain)
next
  assume "list_all plain s"
  then show "quote IsPrint s = CHR 0x22 # s @ [CHR 0x22]"
    by (simp add: quote_plain in_double_quotes_def)
next
  show "Error IsPrint (snd (New h ''svc'' ''C1'' ''msg''))
     (AppErrorPtr (fst (New h ''svc'' ''C1'' ''msg''))) =
     Some (Returns ''[svc:C1] msg'')"
    by (simp add: Error_New)
next
  show \<open>Error_New_WithField IsPrint h ''user-service'' ''US-404'' ''user not found'' ''id'' ''456'' =
     Some (Returns ''[user-service:US-404] user not found [fields:{"id":"456"}]'')\<close>
    by (simp add: Error_New_WithField_eq quote_id quote_456)
next
  have "quote IsPrint [CHR ''k'', CHR 0x22] = [CHR 0x22, CHR ''k'', CHR 0x5C, CHR 0x22, CHR 0x22]"
    by (simp add: quote_run)
  then show \<open>Error_New_WithField IsPrint h ''s'' ''c'' ''m'' [CHR ''k'', CHR 0x22] [CHR 0xFF] =
     Some (Returns (''[s:c] m [fields:{"k'' @ [CHR 0x5C] @ ''"":"'' @ [CHR 0x5C] @ ''xff"}]''))\<close>
    by (simp add: Error_New_WithField_eq quote_invalid_utf8(1))
qed (simp_all add: quote_ascii_escapes quote_invalid_utf8 quote_printable_rune
       quote_unprintable_rune)


theorem Error_format_witness:
  \<open>deref (snd (New empty_heap ''svc'' ''C1'' ''msg'')) (Some 0) =
     Returns (zero_AppError\<lparr>Service := ''svc'', Code := ''C1'', Message := ''msg''\<rparr>) \<and>
   len (snd (New empty_heap ''svc'' ''C1'' ''msg'')) None = 0 \<and>
   Error (\<lambda>r. r = 0xE9) (snd (New empty_heap ''svc'' ''C1'' ''msg'')) (AppErrorPtr (Some 0)) =
     Some (Returns ''[svc:C1] msg'') \<and>
   Error (\<lambda>r. r = 0xE9) example_store (Foreign ''connection refused'' NilError) =
     Some (Returns ''connection refused'') \<and>
   list_all (\<lambda>(k, v). list_all plain k \<and> list_all plain v) (range_of example_store (Some 0)) \<and>
   Error (\<lambda>r. r = 0xE9) example_store (AppErrorPtr (Some 0)) =
     Some (Returns
       ''[user-service:US-404] user not found [fields:{"id":"456"}]: connection refused'') \<and>
   list_all plain ''id'' \<and>
   quote (\<lambda>r. r = 0xE9) ''id'' = ''"id"'' \<and>
   quote (\<lambda>r. r = 0xE9) [CHR 0xC3, CHR 0xA9] = [CHR 0x22, CHR 0xC3, CHR 0xA9, CHR 0x22] \<and>
   quote (\<lambda>r. r = 0xE9) [CHR 0xE2, CHR 0x80, CHR 0x8B] =
     [CHR 0x22, CHR 0x5C, CHR ''u'', CHR ''2'', CHR ''0'', CHR ''0'', CHR ''b'', CHR 0x22] \<and>
   quote (\<lambda>r. r = 0xE9) [CHR 0xF3, CHR 0xA0, CHR 0x80, CHR 0x81] =
     [CHR 0x22, CHR 0x5C, CHR ''U'', CHR ''0'', CHR ''0'', CHR ''0'', CHR ''e'', CHR ''0'',
      CHR ''0'', CHR ''0'', CHR ''1'', CHR 0x22]\<close>
proof -
  let ?P = "\<lambda>r::nat. r = 0xE9"
  let ?h0 = "snd (New empty_heap ''svc'' ''C1'' ''msg'')"
  let ?e0 = "zero_AppError\<lparr>Service := ''svc'', Code := ''C1'', Message := ''msg''\<rparr>"
  let ?e1 = "zero_AppError\<lparr>Service := ''user-service'', Code := ''US-404'',
       Message := ''user not found'', Fields := Some 0,
       cause := Foreign ''connection refused'' NilError, grpcCode := 5\<rparr>"
  have d0: "deref ?h0 (Some 0) = Returns ?e0"
    by (simp add: New_def new_struct_eq empty_heap_def deref_def)
  have l0: "len ?h0 None = 0"
    by (simp add: len_def table_def DAList.empty.rep_eq)
  have c0: "cause ?e0 = NilError" and f0: "Fields ?e0 = None"
    by (simp_all add: zero_AppError_def)
  have pid: "list_all plain ''id''"
    by (simp add: plain_def)
  have pes: "list_all (\<lambda>(k, v). list_all plain k \<and> list_all plain v)
               (range_of example_store (Some 0))"
    by (simp add: example_store_range plain_def)
  have c1: "cause ?e1 \<noteq> NilError" and f1: "Fields ?e1 = Some 0"
    by simp_all
  have fe: "Error ?P example_store (cause ?e1) = Some (Returns ''connection refused'')"
    by (subst Error.simps) simp
  note first = Error_format [where h = ?h0 and p = "Some 0" and e = ?e0 and IsPrint = ?P
      and s = "''id''" and c = "[]"]
  note second = Error_format [where h = example_store and p = "Some 0" and e = ?e1
      and IsPrint = ?P and c = "''connection refused''" and s = "''456''"]
  have h0: "deref ?h0 (Some 0) = Returns ?e0 \<and> len ?h0 (Fields ?e0) = 0 \<and> cause ?e0 = NilError"
    using d0 l0 c0 f0 by simp
  have "Error ?P ?h0 (AppErrorPtr (Some 0)) =
          Some (Returns (''['' @ Service ?e0 @ '':'' @ Code ?e0 @ ''] '' @ Message ?e0))"
    by (rule mp [OF first [THEN conjunct1] h0])
  then have r0: "Error ?P ?h0 (AppErrorPtr (Some 0)) = Some (Returns ''[svc:C1] msg'')"
    by (simp add: zero_AppError_def)
  have h1: "deref example_store (Some 0) = Returns ?e1 \<and> cause ?e1 \<noteq> NilError \<and>
    Error ?P example_store (cause ?e1) = Some (Returns ''connection refused'') \<and>
    list_all (\<lambda>(k, v). list_all plain k \<and> list_all plain v)
      (range_of example_store (Fields ?e1))"
    using example_store_deref c1 fe pes by (simp only: f1 simp_thms)
  have "Error ?P example_store (AppErrorPtr (Some 0)) =
        Some (Returns (''['' @ Service ?e1 @ '':'' @ Code ?e1 @ ''] '' @ Message ?e1 @
          spec_fields_text in_double_quotes (range_of example_store (Fields ?e1)) @ '': '' @
          ''connection refused''))"
    by (rule mp [OF second [THEN conjunct2, THEN conjunct2, THEN conjunct2, THEN conjunct2,
          THEN conjunct1] h1])
  then have r1: \<open>Error ?P example_store (AppErrorPtr (Some 0)) =
     Some (Returns
       ''[user-service:US-404] user not found [fields:{"id":"456"}]: connection refused'')\<close>
    by (simp add: example_store_range spec_fields_text_def in_double_quotes_def
          zero_AppError_def)
  note rest = first [THEN conjunct2, THEN conjunct2, THEN conjunct2, THEN conjunct2,
      THEN conjunct2]
  have "quote ?P ''id'' = CHR 0x22 # ''id'' @ [CHR 0x22]"
    by (rule mp [OF rest [THEN conjunct1] pid])
  then have q: \<open>quote ?P ''id'' = ''"id"''\<close>
    by simp
  note runes = rest [THEN conjunct2, THEN conjunct2, THEN conjunct2, THEN conjunct2,
      THEN conjunct2, THEN conjunct2]
  have u1: "quote ?P [CHR 0xC3, CHR 0xA9] = [CHR 0x22, CHR 0xC3, CHR 0xA9, CHR 0x22]"
    by (rule mp [OF runes [THEN conjunct1]]) simp
  have u2: "quote ?P [CHR 0xE2, CHR 0x80, CHR 0x8B] =
     [CHR 0x22, CHR 0x5C, CHR ''u'', CHR ''2'', CHR ''0'', CHR ''0'', CHR ''b'', CHR 0x22]"
    by (rule mp [OF runes [THEN conjunct2, THEN conjunct1]]) simp
  have u3: "quote ?P [CHR 0xF3, CHR 0xA0, CHR 0x80, CHR 0x81] =
     [CHR 0x22, CHR 0x5C, CHR ''U'', CHR ''0'', CHR ''0'', CHR ''0'', CHR ''e'', CHR ''0'',
      CHR ''0'', CHR ''0'', CHR ''1'', CHR 0x22]"
    by (rule mp [OF runes [THEN conjunct2, THEN conjunct2, THEN conjunct1]]) simp
  have fe': "Error ?P example_store (Foreign ''connection refused'' NilError) =
     Some (Returns ''connection refused'')"
    using fe by simp
  show ?thesis
    by (intro conjI d0 l0 r0 fe' pes r1 pid q u1 u2 u3)
qed

subsection \<open>The operations that copy\<close>

text \<open>
  Construction, the enrichments and decoding leave every struct and table of the store
  as it was, whatever their arguments; rendering, \<^verbatim>\<open>Is\<close>, \<^verbatim>\<open>Unwrap\<close> and
  \<^verbatim>\<open>GRPCStatus\<close> return no store at all.
\<close>

lemma New_preserved: "preserved h (snd (New h service code message))"
  unfolding New_def by (rule preserved_new_struct)

lemma Wrap_preserved: "Wrap h err appErr = Returns (p, h') \<Longrightarrow> preserved h h'"
  by (auto simp: Wrap_def new_struct_eq preserved_iff split: if_splits result.splits)

lemma WithFields_preserved: "WithFields h e f = Returns (p, h') \<Longrightarrow> preserved h h'"
  by (auto simp: WithFields_def new_struct_eq preserved_iff split: result.splits)

lemma WithGRPCCode_preserved: "WithGRPCCode h e c = Returns (p, h') \<Longrightarrow> preserved h h'"
  by (auto simp: WithGRPCCode_def new_struct_eq preserved_iff split: result.splits)

lemma AddFields_preserved:
  assumes "AddFields h e f = Returns (p, h')"
  shows "preserved h h'"
proof (cases "len h f = 0")
  case True
  with assms show ?thesis by (simp add: AddFields_def preserved_refl)
next
  case False
  let ?n = "length (tables h)"
  let ?h1 = "h\<lparr>tables := tables h @ [DAList.empty]\<rparr>"
  from False assms obtain ev where ev: "deref h e = Returns ev"
    by (auto simp: AddFields_def split: result.splits)
  let ?h2 = "assign_all ?h1 ?n (range_of ?h1 (Fields ev))"
  let ?h3 = "assign_all ?h2 ?n (range_of ?h2 f)"
  have "\<exists>t. tables ?h2 = tables h @ [t]"
    using assign_all_new_eq [of ?h1 "tables h" DAList.empty] by simp
  then obtain t where t2: "tables ?h2 = tables h @ [t]" ..
  have "preserved h ?h3"
    using t2 by (rule preserved_assign_all_new) (simp add: structs_assign_all)
  moreover have "h' = snd (new_struct ?h3 (ev\<lparr>Fields := Some ?n\<rparr>))"
    using False assms ev by (auto simp: AddFields_def make_map_def Let_def)
  ultimately show ?thesis
    using preserved_new_struct preserved_trans by blast
qed

lemma WithField_preserved:
  assumes "WithField h e k v = Returns (p, h')"
  shows "preserved h h'"
proof -
  let ?h2 = "h\<lparr>tables := tables h @ [DAList.update k v DAList.empty]\<rparr>"
  have "WithField h e k v = AddFields ?h2 e (Some (length (tables h)))"
    by (simp add: WithField_def make_map_def mapassign_def)
  with assms have "preserved ?h2 h'"
    by (simp add: AddFields_preserved)
  moreover have "preserved h ?h2"
    by (simp add: preserved_iff)
  ultimately show ?thesis
    using preserved_trans by blast
qed

lemma FromGRPCStatus_preserved:
  assumes "FromGRPCStatus h st = (p, h')"
  shows "preserved h h'"
proof (cases st)
  case None
  with assms show ?thesis by (simp add: FromGRPCStatus_def preserved_refl)
next
  case (Some s)
  with assms scan_details_result [of h s "st_details s"] show ?thesis
    by (auto simp: FromGRPCStatus_def)
qed

subsection \<open>\<^verbatim>\<open>ToJSON\<close>\<close>

lemma table_structs_update: "table (h\<lparr>structs := ss\<rparr>) m = table h m"
  by (simp add: table_def split: option.splits)

lemma Marshal_structs_update: "Marshal (h\<lparr>structs := ss\<rparr>) v t = Marshal h v t"
  by (simp add: Marshal_def len_def range_of_def table_structs_update)

lemma ToJSON_with_trace:
  assumes "deref h p = Returns v"
  shows "\<exists>a. p = Some a \<and> a < length (structs h) \<and>
           ToJSON h (Ctx (Some t)) (AppErrorPtr p) =
             Returns
               (Encoding (JObject
                  ((if Service v = [] then [] else [(''service'', JString (Service v))]) @
                   (if Code v = [] then [] else [(''code'', JString (Code v))]) @
                   [(''message'', JString (Message v))] @
                   (if len h (Fields v) = 0 then []
                    else [(''fields'',
                           JObject (map (\<lambda>(k, x). (k, JString x)) (range_of h (Fields v))))]) @
                   (if t = [] then [] else [(''trace_id'', JString t)]))),
                h\<lparr>structs := (structs h)[a := v\<lparr>traceID := t\<rparr>]\<rparr>)"
proof -
  from assms obtain a where a: "p = Some a" "a < length (structs h)" "structs h ! a = v"
    by (auto simp: deref_def split: option.splits if_splits)
  let ?h' = "h\<lparr>structs := (structs h)[a := v\<lparr>traceID := t\<rparr>]\<rparr>"
  have w: "assign_traceID h p t = Returns ?h'"
    using a by (simp add: assign_traceID_def)
  have d: "deref ?h' p = Returns (v\<lparr>traceID := t\<rparr>)"
    using a by (simp add: deref_def)
  have \<open>ToJSON h (Ctx (Some t)) (AppErrorPtr p) =
          (case Marshal h (v\<lparr>traceID := t\<rparr>) t of
             Inl marshalErr \<Rightarrow>
               Returns (Literal (''{"error":"failed to marshal app error: '' @ marshalErr @ ''"}''), ?h')
           | Inr b \<Rightarrow> Returns (Encoding b, ?h'))\<close>
    by (simp add: ToJSON_def w d Marshal_structs_update)
  then show ?thesis
    using a by (simp add: Marshal_def)
qed

lemma ToJSON_without_trace:
  assumes "deref h p = Returns v"
  shows "ToJSON h (Ctx None) (AppErrorPtr p) =
           Returns
             (Encoding (JObject
                ((if Service v = [] then [] else [(''service'', JString (Service v))]) @
                 (if Code v = [] then [] else [(''code'', JString (Code v))]) @
                 [(''message'', JString (Message v))] @
                 (if len h (Fields v) = 0 then []
                  else [(''fields'',
                         JObject (map (\<lambda>(k, x). (k, JString x)) (range_of h (Fields v))))]) @
                 (if traceID v = [] then [] else [(''trace_id'', JString (traceID v))]))),
              h)"
  using assms by (simp add: ToJSON_def Marshal_def)

text \<open>
  C2. \<^verbatim>\<open>ToJSON\<close> called with a context that carries a trace id writes the id
  into the struct its argument points to: after the call the pointer leads to a struct
  whose \<^verbatim>\<open>traceID\<close> is the id of the context, so the value that was passed in has
  changed in place and the store is not preserved.
\<close>

theorem ToJSON_persists_traceID:
  assumes "deref h p = Returns v" and "traceID v \<noteq> t"
  shows "\<exists>b h'. ToJSON h (Ctx (Some t)) (AppErrorPtr p) = Returns (b, h') \<and>
           deref h' p = Returns (v\<lparr>traceID := t\<rparr>) \<and> deref h' p \<noteq> deref h p \<and>
           \<not> preserved h h'"
proof -
  from ToJSON_with_trace [OF assms(1), of t] obtain a b where a: "p = Some a" "a < length (structs h)"
    and call: "ToJSON h (Ctx (Some t)) (AppErrorPtr p) =
                 Returns (b, h\<lparr>structs := (structs h)[a := v\<lparr>traceID := t\<rparr>]\<rparr>)"
    by blast
  let ?h' = "h\<lparr>structs := (structs h)[a := v\<lparr>traceID := t\<rparr>]\<rparr>"
  have new: "deref ?h' p = Returns (v\<lparr>traceID := t\<rparr>)"
    using a by (simp add: deref_def)
  have "v\<lparr>traceID := t\<rparr> \<noteq> v"
    using assms(2) by (metis AppError.select_convs(7) AppError.surjective AppError.update_convs(7))
  with new assms(1) have ne: "deref ?h' p \<noteq> deref h p"
    by simp
  have "\<not> preserved h ?h'"
  proof
    assume "preserved h ?h'"
    from preserved_deref [OF this assms(1)] ne assms(1) show False by simp
  qed
  with call new ne show ?thesis
    by blast
qed

theorem ToJSON_persists_traceID_witness:
  "deref (snd (New empty_heap ''svc'' ''C1'' ''msg'')) (Some 0) =
     Returns (zero_AppError\<lparr>Service := ''svc'', Code := ''C1'', Message := ''msg''\<rparr>) \<and>
   traceID (zero_AppError\<lparr>Service := ''svc'', Code := ''C1'', Message := ''msg''\<rparr>) \<noteq> ''abc'' \<and>
   (\<exists>b h'. ToJSON (snd (New empty_heap ''svc'' ''C1'' ''msg'')) (Ctx (Some ''abc''))
              (AppErrorPtr (Some 0)) = Returns (b, h') \<and>
      deref h' (Some 0) =
        Returns (zero_AppError\<lparr>Service := ''svc'', Code := ''C1'', Message := ''msg'',
          traceID := ''abc''\<rparr>) \<and>
      \<not> preserved (snd (New empty_heap ''svc'' ''C1'' ''msg'')) h')"
proof -
  let ?h = "snd (New empty_heap ''svc'' ''C1'' ''msg'')"
  let ?v = "zero_AppError\<lparr>Service := ''svc'', Code := ''C1'', Message := ''msg''\<rparr>"
  have d: "deref ?h (Some 0) = Returns ?v"
    by (simp add: New_def new_struct_eq empty_heap_def deref_def)
  have t: "traceID ?v \<noteq> ''abc''"
    by (simp add: zero_AppError_def)
  from ToJSON_persists_traceID [OF d t]
  have "\<exists>b h'. ToJSON ?h (Ctx (Some ''abc'')) (AppErrorPtr (Some 0)) = Returns (b, h') \<and>
          deref h' (Some 0) = Returns (?v\<lparr>traceID := ''abc''\<rparr>) \<and> \<not> preserved ?h h'"
    by blast
  with d t show ?thesis
    by blast
qed

lemma map_of_trace_id:
  "map_of
     ((if s = [] then [] else [(''service'', JString s)]) @
      (if c = [] then [] else [(''code'', JString c)]) @
      [(''message'', JString m)] @
      (if n = 0 then [] else [(''fields'', f)]) @
      (if t = [] then [] else [(''trace_id'', JString t)])) ''trace_id'' =
   (if t = [] then None else Some (JString t))"
  by simp

lemma map_of_fields:
  "map_of
     ((if s = [] then [] else [(''service'', JString s)]) @
      (if c = [] then [] else [(''code'', JString c)]) @
      [(''message'', JString m)] @
      (if n = 0 then [] else [(''fields'', f)]) @
      (if t = [] then [] else [(''trace_id'', JString t)])) ''fields'' =
   (if n = (0::nat) then None else Some f)"
  by simp

text \<open>
  C7. After \<^verbatim>\<open>ToJSON\<close> has been called on a value with a context carrying the
  trace id \<open>t\<close>, a second call on the same value with a context that carries no
  trace id still returns an object with \<^verbatim>\<open>"trace_id"\<close> set to \<open>t\<close>.
\<close>

theorem ToJSON_stale_trace_id:
  assumes "deref h p = Returns v" and "t \<noteq> []"
  shows "\<exists>ms. ToJSON_twice h p (Ctx (Some t)) (Ctx None) = Returns (Encoding (JObject ms)) \<and>
           map_of ms ''trace_id'' = Some (JString t)"
proof -
  from ToJSON_with_trace [OF assms(1), of t] obtain a b
    where a: "p = Some a" "a < length (structs h)"
      and first: "ToJSON h (Ctx (Some t)) (AppErrorPtr p) =
                    Returns (b, h\<lparr>structs := (structs h)[a := v\<lparr>traceID := t\<rparr>]\<rparr>)"
    by blast
  let ?h' = "h\<lparr>structs := (structs h)[a := v\<lparr>traceID := t\<rparr>]\<rparr>"
  let ?v' = "v\<lparr>traceID := t\<rparr>"
  have d: "deref ?h' p = Returns ?v'"
    using a by (simp add: deref_def)
  let ?ms = "(if Service ?v' = [] then [] else [(''service'', JString (Service ?v'))]) @
             (if Code ?v' = [] then [] else [(''code'', JString (Code ?v'))]) @
             [(''message'', JString (Message ?v'))] @
             (if len ?h' (Fields ?v') = 0 then []
              else [(''fields'',
                     JObject (map (\<lambda>(k, x). (k, JString x)) (range_of ?h' (Fields ?v'))))]) @
             (if traceID ?v' = [] then [] else [(''trace_id'', JString (traceID ?v'))])"
  have second: "ToJSON ?h' (Ctx None) (AppErrorPtr p) = Returns (Encoding (JObject ?ms), ?h')"
    by (rule ToJSON_without_trace [OF d])
  have twice: "ToJSON_twice h p (Ctx (Some t)) (Ctx None) = Returns (Encoding (JObject ?ms))"
    unfolding ToJSON_twice_def first by (simp add: second)
  have "map_of ?ms ''trace_id'' = (if traceID ?v' = [] then None else Some (JString (traceID ?v')))"
    by (rule map_of_trace_id)
  with assms(2) have "map_of ?ms ''trace_id'' = Some (JString t)"
    by simp
  with twice show ?thesis
    by blast
qed

theorem ToJSON_stale_trace_id_witness:
  "deref (snd (New empty_heap ''svc'' ''C1'' ''msg'')) (Some 0) =
     Returns (zero_AppError\<lparr>Service := ''svc'', Code := ''C1'', Message := ''msg''\<rparr>) \<and>
   ''abc'' \<noteq> [] \<and>
   ToJSON_twice (snd (New empty_heap ''svc'' ''C1'' ''msg'')) (Some 0) (Ctx (Some ''abc''))
     (Ctx None) =
     Returns (Encoding (JObject
       [(''service'', JString ''svc''), (''code'', JString ''C1''),
        (''message'', JString ''msg''), (''trace_id'', JString ''abc'')]))"
proof -
  let ?h = "snd (New empty_heap ''svc'' ''C1'' ''msg'')"
  let ?v = "zero_AppError\<lparr>Service := ''svc'', Code := ''C1'', Message := ''msg''\<rparr>"
  have d: "deref ?h (Some 0) = Returns ?v"
    by (simp add: New_def new_struct_eq empty_heap_def deref_def)
  have t: "''abc'' \<noteq> []"
    by simp
  have eval: "ToJSON_twice ?h (Some 0) (Ctx (Some ''abc'')) (Ctx None) =
     Returns (Encoding (JObject
       [(''service'', JString ''svc''), (''code'', JString ''C1''),
        (''message'', JString ''msg''), (''trace_id'', JString ''abc'')]))"
    by (simp add: ToJSON_twice_def ToJSON_def assign_traceID_def Marshal_def New_def
          new_struct_def empty_heap_def zero_AppError_def deref_def len_def table_def
          DAList.empty.rep_eq)
  from ToJSON_stale_trace_id [OF d t] eval d t show ?thesis
    by simp
qed

text \<open>
  What holds of the trace id: on a value whose \<^verbatim>\<open>traceID\<close> is still empty, a
  context without trace id gives an object without \<^verbatim>\<open>"trace_id"\<close> and leaves the
  store alone, a context with the id \<^verbatim>\<open>abc\<close> gives \<^verbatim>\<open>"trace_id":"abc"\<close>, and
  \<^verbatim>\<open>"fields"\<close> is left out exactly when the map is empty.
\<close>

lemma ToJSON_trace_id_unset:
  assumes "deref h p = Returns v" and "traceID v = []"
  shows "\<exists>ms. ToJSON h (Ctx None) (AppErrorPtr p) = Returns (Encoding (JObject ms), h) \<and>
           map_of ms ''trace_id'' = None \<and>
           (map_of ms ''fields'' = None \<longleftrightarrow> len h (Fields v) = 0)"
    and "\<exists>ms h'. ToJSON h (Ctx (Some ''abc'')) (AppErrorPtr p) = Returns (Encoding (JObject ms), h') \<and>
           map_of ms ''trace_id'' = Some (JString ''abc'') \<and>
           (map_of ms ''fields'' = None \<longleftrightarrow> len h (Fields v) = 0)"
proof -
  show "\<exists>ms. ToJSON h (Ctx None) (AppErrorPtr p) = Returns (Encoding (JObject ms), h) \<and>
           map_of ms ''trace_id'' = None \<and>
           (map_of ms ''fields'' = None \<longleftrightarrow> len h (Fields v) = 0)"
    unfolding ToJSON_without_trace [OF assms(1)]
    by (intro exI conjI refl) (simp_all only: map_of_trace_id map_of_fields assms(2), simp_all)
  from ToJSON_with_trace [OF assms(1), of "''abc''"]
  show "\<exists>ms h'. ToJSON h (Ctx (Some ''abc'')) (AppErrorPtr p) = Returns (Encoding (JObject ms), h') \<and>
           map_of ms ''trace_id'' = Some (JString ''abc'') \<and>
           (map_of ms ''fields'' = None \<longleftrightarrow> len h (Fields v) = 0)"
    by (auto simp only: map_of_trace_id map_of_fields) simp_all
qed

end
